theory Spec2Isabelle
  imports
    Complex_Main
    "HOL-Library.AList"
    "HOL-Library.Char_ord"
    "HOL-Library.List_Lexorder"
begin

section \<open>Batch audio transcriber: a shallow embedding of \<^verbatim>\<open>transcribe.py\<close>\<close>

text \<open>
  The script enumerates the audio files of a directory, asks an external probe for the
  duration of each, hands each to a speech-recognition engine while a reporter thread
  draws a progress bar, writes the recognised text beside the others, moves the original
  into an archive directory and sends desktop notifications.

  Conventions of the embedding:
  \<^item> a Python \<^verbatim>\<open>str\<close> is a \<open>string\<close>, the bytes of its UTF-8 encoding (one
    byte for an ASCII character); the glyphs the reporter draws are Unicode code points
    (\<open>nat\<close>);
  \<^item> a Python \<^verbatim>\<open>int\<close> is an \<open>int\<close>; a Python \<^verbatim>\<open>float\<close> is a
    \<open>rat\<close>: finite values with exact arithmetic (rounding, infinities and NaN are not
    represented);
  \<^item> an exception is a value \<open>Inl e\<close> of a sum type;
  \<^item> a directory is an association list from file names to file contents;
  \<^item> everything outside the script (sub-processes, the engine, the clock, the
    \<^verbatim>\<open>float\<close> parser) is a field of a record \<open>world\<close> that the functions take
    as a parameter.
\<close>

subsection \<open>Python's string helpers\<close>

text \<open>Decimal digits of a natural number, most significant first (\<^verbatim>\<open>str(n)\<close>).\<close>

definition digit_char :: "nat \<Rightarrow> char" where
  "digit_char d = char_of (48 + d)"

fun decimal :: "nat \<Rightarrow> string" where
  "decimal n = (if n < 10 then [digit_char n] else decimal (n div 10) @ [digit_char (n mod 10)])"

declare decimal.simps [simp del]

text \<open>
  \<^verbatim>\<open>format(n, "02d")\<close>: the decimal digits, padded with zeros on the left to a total
  width of two; the sign of a negative number comes first and counts in the width.
\<close>

definition zfill :: "nat \<Rightarrow> string \<Rightarrow> string" where
  "zfill w s = replicate (w - length s) (CHR ''0'') @ s"

definition fmt_02d :: "int \<Rightarrow> string" where
  "fmt_02d n = (if n < 0 then CHR ''-'' # zfill 1 (decimal (nat (- n))) else zfill 2 (decimal (nat n)))"

text \<open>Reading a string of decimal digits back, for stating what a rendering denotes.\<close>

definition digit_val :: "char \<Rightarrow> nat" where
  "digit_val c = of_char c - 48"

definition is_digit :: "char \<Rightarrow> bool" where
  "is_digit c = (48 \<le> (of_char c :: nat) \<and> (of_char c :: nat) \<le> 57)"

definition read_decimal :: "string \<Rightarrow> nat" where
  "read_decimal s = foldl (\<lambda>acc c. 10 * acc + digit_val c) 0 s"

subsection \<open>\<^verbatim>\<open>format_time\<close>\<close>

text \<open>
  \<^verbatim>\<open>
  def format_time(seconds: int) -> str:
      mins, secs = divmod(int(seconds), 60)
      return f"{mins:02d}:{secs:02d}"
  \<close>
  \<^verbatim>\<open>int(seconds)\<close> is the identity on an \<^verbatim>\<open>int\<close> and truncates a
  \<^verbatim>\<open>float\<close> towards zero; \<^verbatim>\<open>divmod\<close> is floor division, as \<open>div\<close> and
  \<open>mod\<close> on \<open>int\<close> are.
\<close>

definition format_time :: "int \<Rightarrow> string" where
  "format_time seconds =
     (let mins = seconds div 60; secs = seconds mod 60
      in fmt_02d mins @ '':'' @ fmt_02d secs)"

definition py_int :: "rat \<Rightarrow> int" where
  "py_int x = (if 0 \<le> x then \<lfloor>x\<rfloor> else \<lceil>x\<rceil>)"

definition format_time_float :: "rat \<Rightarrow> string" where
  "format_time_float seconds = format_time (py_int seconds)"

subsection \<open>Whitespace, case and digit grouping\<close>

text \<open>
  \<^verbatim>\<open>str.strip()\<close> and \<^verbatim>\<open>str.split()\<close> with no argument work on runs of
  whitespace. File names and texts are byte strings here, so whitespace is the ASCII
  whitespace Python knows: tab, line feed, vertical tab, form feed, carriage return, the
  four separators \<open>0x1C\<close> to \<open>0x1F\<close>, and the space.
\<close>

definition is_space :: "char \<Rightarrow> bool" where
  "is_space c = (let n = (of_char c :: nat) in (9 \<le> n \<and> n \<le> 13) \<or> (28 \<le> n \<and> n \<le> 32))"

definition strip :: "string \<Rightarrow> string" where
  "strip s = rev (dropWhile is_space (rev (dropWhile is_space s)))"

fun split_acc :: "string \<Rightarrow> string \<Rightarrow> string list" where
  "split_acc cur [] = (if cur = [] then [] else [rev cur])"
| "split_acc cur (c # cs) =
     (if is_space c then (if cur = [] then split_acc [] cs else rev cur # split_acc [] cs)
      else split_acc (c # cur) cs)"

definition split :: "string \<Rightarrow> string list" where
  "split s = split_acc [] s"

text \<open>\<^verbatim>\<open>str.lower()\<close> on the ASCII letters.\<close>

definition lower_char :: "char \<Rightarrow> char" where
  "lower_char c = (let n = (of_char c :: nat) in if 65 \<le> n \<and> n \<le> 90 then char_of (n + 32) else c)"

definition lower :: "string \<Rightarrow> string" where
  "lower s = map lower_char s"

text \<open>\<^verbatim>\<open>format(n, ",")\<close>: decimal digits in groups of three, separated by commas.\<close>

fun fmt_comma :: "nat \<Rightarrow> string" where
  "fmt_comma n =
     (if n < 1000 then decimal n
      else fmt_comma (n div 1000) @ '','' @ zfill 3 (decimal (n mod 1000)))"

declare fmt_comma.simps [simp del]

subsection \<open>Paths\<close>

text \<open>
  \<^verbatim>\<open>Path.suffix\<close> and \<^verbatim>\<open>Path.stem\<close> cut the file name at its last dot, unless
  that dot is the first or the last character of the name:
  \<^verbatim>\<open>
  i = name.rfind('.')
  if 0 < i < len(name) - 1: suffix, stem = name[i:], name[:i]
  else:                     suffix, stem = '', name
  \<close>
\<close>

text \<open>
  \<^verbatim>\<open>s.rfind(c)\<close>: the highest index at which \<open>c\<close> occurs in \<open>s\<close>, or
  \<open>-1\<close> when it does not occur. The characters after the last occurrence are those
  before the first occurrence in the reversed string.
\<close>

definition rfind :: "string \<Rightarrow> char \<Rightarrow> int" where
  "rfind s c =
     (if c \<in> set s
      then int (length s) - 1 - int (length (takeWhile (\<lambda>x. x \<noteq> c) (rev s)))
      else - 1)"

definition suffix :: "string \<Rightarrow> string" where
  "suffix name =
     (let i = rfind name (CHR ''.'')
      in if 0 < i \<and> i < int (length name) - 1 then drop (nat i) name else [])"

definition stem :: "string \<Rightarrow> string" where
  "stem name =
     (let i = rfind name (CHR ''.'')
      in if 0 < i \<and> i < int (length name) - 1 then take (nat i) name else name)"

definition AUDIO_EXTENSIONS :: "string list" where
  "AUDIO_EXTENSIONS = [''.wav'', ''.mp3'', ''.m4a'', ''.flac'', ''.ogg'', ''.webm'', ''.opus'']"

definition PROCESS_RATIO :: rat where
  "PROCESS_RATIO = 4 / 10"

text \<open>
  The three directories are siblings in the script's directory; a path is written relative
  to that directory.
\<close>

definition AUDIO_DIR :: string where "AUDIO_DIR = ''audio''"
definition OUTPUT_DIR :: string where "OUTPUT_DIR = ''transcriptions''"
definition HISTORICAL_DIR :: string where "HISTORICAL_DIR = ''historical''"

definition path_join :: "string \<Rightarrow> string \<Rightarrow> string" where
  "path_join d name = d @ ''/'' @ name"

subsection \<open>Exceptions, the file system and the world outside\<close>

datatype exn = FileNotFoundError | ValueError | RuntimeError string

record completed_process =
  returncode :: int
  stdout :: string

record struct_time =
  tm_year :: nat
  tm_mon :: nat
  tm_mday :: nat
  tm_hour :: nat
  tm_min :: nat
  tm_sec :: nat

text \<open>
  What the script cannot decide by itself:
  \<^item> \<open>subprocess_run argv\<close>: \<^verbatim>\<open>subprocess.run(argv, capture_output=True)\<close>, which
    raises when the program cannot be started and otherwise returns its exit status and
    captured output, whatever the exit status is (no \<^verbatim>\<open>check=True\<close>);
  \<^item> \<open>float_of_str\<close>: Python's \<^verbatim>\<open>float(s)\<close>, \<open>None\<close> standing for its
    \<^verbatim>\<open>ValueError\<close>;
  \<^item> \<open>load_model\<close> and \<open>transcribe\<close>: the engine; \<open>transcribe path\<close> is the
    \<^verbatim>\<open>"text"\<close> entry of its result for the file at \<open>path\<close>, or what it raises;
  \<^item> \<open>localtime i\<close>: the local time when the \<open>i\<close>-th file is archived;
  \<^item> \<open>seconds_taken i\<close>: the wall-clock seconds the \<open>i\<close>-th engine call takes.
\<close>

record world =
  subprocess_run :: "string list \<Rightarrow> exn + completed_process"
  float_of_str :: "string \<Rightarrow> rat option"
  load_model :: "string \<Rightarrow> exn option"
  transcribe :: "string \<Rightarrow> exn + string"
  localtime :: "nat \<Rightarrow> struct_time"
  seconds_taken :: "nat \<Rightarrow> int"

text \<open>
  A directory maps file names to file contents; the order of the list is the order in
  which \<^verbatim>\<open>iterdir\<close> yields the names. Only regular files are represented. The
  state also records, in order, every call that leaves the script.
\<close>

type_synonym dir = "(string \<times> string) list"

datatype event =
    Spawn "string list"
  | LoadModel string
  | Transcribe string string

record sys =
  audio :: dir
  transcriptions :: dir
  historical :: dir
  trace :: "event list"

definition emit :: "event \<Rightarrow> sys \<Rightarrow> sys" where
  "emit e s = s\<lparr>trace := trace s @ [e]\<rparr>"

text \<open>\<^verbatim>\<open>subprocess.run\<close>, recording the call.\<close>

definition run :: "world \<Rightarrow> string list \<Rightarrow> sys \<Rightarrow> (exn + completed_process) \<times> sys" where
  "run w argv s = (subprocess_run w argv, emit (Spawn argv) s)"

text \<open>\<^verbatim>\<open>Path.stat().st_size\<close> of a file of the input directory.\<close>

definition st_size :: "sys \<Rightarrow> string \<Rightarrow> exn + nat" where
  "st_size s name =
     (case map_of (audio s) name of
        None \<Rightarrow> Inl FileNotFoundError
      | Some content \<Rightarrow> Inr (length content))"

subsection \<open>\<^verbatim>\<open>notify\<close>\<close>

text \<open>
  \<^verbatim>\<open>
  def notify(title, message, sound=True):
      sound_cmd = 'sound name "Glass"' if sound else ""
      script = f'display notification "{message}" with title "{title}" {sound_cmd}'
      subprocess.run(["osascript", "-e", script], capture_output=True)
  \<close>
  There is no \<^verbatim>\<open>try\<close> around the call and its result is dropped.
\<close>

definition notify_script :: "string \<Rightarrow> string \<Rightarrow> bool \<Rightarrow> string" where
  \<open>notify_script title message sound =
     (let sound_cmd = (if sound then ''sound name "Glass"'' else [])
      in ''display notification "'' @ message @ ''" with title "'' @ title @ ''" '' @ sound_cmd)\<close>

definition notify :: "world \<Rightarrow> string \<Rightarrow> string \<Rightarrow> bool \<Rightarrow> sys \<Rightarrow> (exn + unit) \<times> sys" where
  "notify w title message sound s =
     (case run w [''osascript'', ''-e'', notify_script title message sound] s of
        (Inl e, s') \<Rightarrow> (Inl e, s')
      | (Inr _, s') \<Rightarrow> (Inr (), s'))"

subsection \<open>\<^verbatim>\<open>get_audio_duration\<close>\<close>

text \<open>
  \<^verbatim>\<open>
  def get_audio_duration(file_path):
      try:
          result = subprocess.run(["ffprobe", ..., str(file_path)],
                                  capture_output=True, text=True)
          return float(result.stdout.strip())
      except:
          size_mb = file_path.stat().st_size / (1024 * 1024)
          return size_mb * 6
  \<close>
  The handler catches whatever the \<^verbatim>\<open>try\<close> block raises; what the handler itself
  raises (\<^verbatim>\<open>stat\<close> on a file that is not there) leaves the function.
\<close>

definition ffprobe_argv :: "string \<Rightarrow> string list" where
  "ffprobe_argv file_path =
     [''ffprobe'', ''-v'', ''error'', ''-show_entries'', ''format=duration'',
      ''-of'', ''default=noprint_wrappers=1:nokey=1'', file_path]"

definition size_fallback :: "sys \<Rightarrow> string \<Rightarrow> exn + rat" where
  "size_fallback s name =
     (case st_size s name of
        Inl e \<Rightarrow> Inl e
      | Inr n \<Rightarrow> (let size_mb = of_nat n / (1024 * 1024) in Inr (size_mb * 6)))"

definition get_audio_duration :: "world \<Rightarrow> string \<Rightarrow> sys \<Rightarrow> (exn + rat) \<times> sys" where
  "get_audio_duration w name s =
     (case run w (ffprobe_argv (path_join AUDIO_DIR name)) s of
        (Inl e, s') \<Rightarrow> (size_fallback s' name, s')
      | (Inr result, s') \<Rightarrow>
          (case float_of_str w (strip (stdout result)) of
             None \<Rightarrow> (size_fallback s' name, s')
           | Some d \<Rightarrow> (Inr d, s')))"

subsection \<open>\<^verbatim>\<open>show_progress_bar\<close>\<close>

text \<open>
  What the reporter writes to the terminal, one value per \<^verbatim>\<open>sys.stdout.write\<close>:
  \<^item> \<open>BarLine bar percent elapsed estimate\<close> is
    \<^verbatim>\<open>[{bar}] {percent:2d}% . {format_time(elapsed)} / ~{format_time(estimated_seconds)}\<close>;
  \<^item> \<open>SpinnerLine glyph elapsed\<close> is
    \<^verbatim>\<open>{chars[idx % len(chars)]} Transcribiendo... {format_time(elapsed)}\<close>;
  \<^item> \<open>FinalLine bar elapsed\<close> is \<^verbatim>\<open>[{bar}] Completado en {format_time(idx)}\<close>.
  A bar is the list of its glyphs, each a Unicode code point.
\<close>

datatype line =
    BarLine "nat list" int string string
  | SpinnerLine nat string
  | FinalLine "nat list" string

definition full_block :: nat where "full_block = 0x2588"
definition light_shade :: nat where "light_shade = 0x2591"

definition spinner_chars :: "nat list" where
  "spinner_chars = [0x280B, 0x2819, 0x2839, 0x2838, 0x283C, 0x2834, 0x2826, 0x2827, 0x2807, 0x280F]"

definition bar_width :: nat where "bar_width = 30"

text \<open>\<^verbatim>\<open>s * n\<close> for a one-glyph string and an integer: empty when \<open>n\<close> is not positive.\<close>

definition times :: "nat \<Rightarrow> int \<Rightarrow> nat list" where
  "times g n = replicate (nat n) g"

text \<open>
  The body of the loop at tick \<open>idx\<close>: the value of \<open>progress\<close> and the line
  written.
  \<^verbatim>\<open>
  elapsed = idx
  if estimated_seconds > 0:
      progress = min(elapsed / estimated_seconds, 0.99)
      filled = int(bar_width * progress)
      bar = FULL * filled + LIGHT * (bar_width - filled)
      percent = int(progress * 100)
      ... write the bar line ...
  else:
      ... write chars[idx % len(chars)] and the elapsed time ...
  \<close>
  (\<^verbatim>\<open>eta\<close> is computed in the source and never used.)
\<close>

definition progress_at :: "rat \<Rightarrow> nat \<Rightarrow> rat" where
  "progress_at estimated_seconds elapsed = min (of_nat elapsed / estimated_seconds) (99 / 100)"

definition tick_line :: "rat \<Rightarrow> nat \<Rightarrow> line" where
  "tick_line estimated_seconds idx =
     (let elapsed = idx in
      if estimated_seconds > 0 then
        (let progress = progress_at estimated_seconds elapsed;
             filled = py_int (of_nat bar_width * progress);
             bar = times full_block filled @ times light_shade (int bar_width - filled);
             percent = py_int (progress * 100)
         in BarLine bar percent (format_time (int elapsed)) (format_time_float estimated_seconds))
      else
        SpinnerLine (spinner_chars ! (idx mod length spinner_chars)) (format_time (int elapsed)))"

definition final_line :: "nat \<Rightarrow> line" where
  "final_line idx = FinalLine (times full_block (int bar_width)) (format_time (int idx))"

text \<open>
  \<^verbatim>\<open>
  idx = 0
  while not stop_event.is_set():
      ... write the line of this tick ...
      time.sleep(1)
      idx += 1
  ... write the final line ...
  return idx
  \<close>
  The stop flag belongs to the caller: \<open>is_set k\<close> is what \<^verbatim>\<open>stop_event.is_set()\<close>
  answers when the loop tests it for the \<open>k\<close>-th time, counting from zero. The loop
  runs for ever when the flag is never set, so the function is partial: \<open>None\<close> is a
  run that does not return. The result is what was written and the value returned.
\<close>

partial_function (option) progress_loop ::
  "(nat \<Rightarrow> bool) \<Rightarrow> rat \<Rightarrow> nat \<Rightarrow> line list \<Rightarrow> (line list \<times> nat) option" where
  "progress_loop is_set estimated_seconds idx written =
     (if \<not> is_set idx
      then progress_loop is_set estimated_seconds (idx + 1) (written @ [tick_line estimated_seconds idx])
      else Some (written @ [final_line idx], idx))"

declare progress_loop.simps [code]

definition show_progress_bar :: "(nat \<Rightarrow> bool) \<Rightarrow> string \<Rightarrow> rat \<Rightarrow> (line list \<times> nat) option" where
  "show_progress_bar is_set file_name estimated_seconds = progress_loop is_set estimated_seconds 0 []"

text \<open>Telling the final line from the lines of the ticks.\<close>

fun is_final :: "line \<Rightarrow> bool" where
  "is_final (FinalLine _ _) = True"
| "is_final _ = False"

subsection \<open>\<^verbatim>\<open>main\<close>\<close>

text \<open>
  Console output is not part of the state: \<^verbatim>\<open>print\<close> and the reporter thread
  write to the terminal only, and nothing in \<^verbatim>\<open>main\<close> reads it back. The reporter
  thread is started before the engine call and joined after it; it shares nothing with
  \<^verbatim>\<open>main\<close> but the stop flag, and its return value is dropped. The three
  directories exist (\<^verbatim>\<open>mkdir(exist_ok=True)\<close> creates the missing ones, empty), and
  writing and renaming inside them succeed.
\<close>

text \<open>
  \<^verbatim>\<open>
  audio_files = sorted([f for f in AUDIO_DIR.iterdir()
                        if f.suffix.lower() in AUDIO_EXTENSIONS])
  \<close>
  Paths of one directory compare as their names do, character by character.
\<close>

definition is_audio :: "string \<Rightarrow> bool" where
  "is_audio name = (lower (suffix name) \<in> set AUDIO_EXTENSIONS)"

definition find_audio_files :: "sys \<Rightarrow> string list" where
  "find_audio_files s = sort (filter is_audio (map fst (audio s)))"

text \<open>
  The listing loop:
  \<^verbatim>\<open>
  for f in audio_files:
      size_mb = f.stat().st_size / (1024 * 1024)
      duration = get_audio_duration(f)
      print(...)
  \<close>
\<close>

fun list_files :: "world \<Rightarrow> string list \<Rightarrow> sys \<Rightarrow> (exn + unit) \<times> sys" where
  "list_files w [] s = (Inr (), s)"
| "list_files w (f # fs) s =
     (case st_size s f of
        Inl e \<Rightarrow> (Inl e, s)
      | Inr _ \<Rightarrow>
          (case get_audio_duration w f s of
             (Inl e, s') \<Rightarrow> (Inl e, s')
           | (Inr _, s') \<Rightarrow> list_files w fs s'))"

text \<open>\<^verbatim>\<open>time.strftime("%Y%m%d_%H%M%S")\<close>\<close>

definition strftime_stamp :: "struct_time \<Rightarrow> string" where
  "strftime_stamp t =
     zfill 4 (decimal (tm_year t)) @ zfill 2 (decimal (tm_mon t)) @ zfill 2 (decimal (tm_mday t))
     @ ''_'' @ zfill 2 (decimal (tm_hour t)) @ zfill 2 (decimal (tm_min t)) @ zfill 2 (decimal (tm_sec t))"

text \<open>
  Saving the text:
  \<^verbatim>\<open>
  output_file = OUTPUT_DIR / f"{audio_file.stem}.txt"
  text = result["text"].strip()
  output_file.write_text(text)
  \<close>
  \<^verbatim>\<open>write_text\<close> opens the file for writing: it creates it, or replaces its content.
\<close>

definition output_file :: "string \<Rightarrow> string" where
  "output_file audio_file = stem audio_file @ ''.txt''"

definition write_text :: "string \<Rightarrow> string \<Rightarrow> dir \<Rightarrow> dir" where
  "write_text name content d = AList.update name content d"

definition save_transcription :: "string \<Rightarrow> string \<Rightarrow> sys \<Rightarrow> sys" where
  "save_transcription audio_file result_text s =
     (let text = strip result_text
      in s\<lparr>transcriptions := write_text (output_file audio_file) text (transcriptions s)\<rparr>)"

text \<open>
  Moving the original:
  \<^verbatim>\<open>
  historical_file = HISTORICAL_DIR / audio_file.name
  if historical_file.exists():
      timestamp = time.strftime("%Y%m%d_%H%M%S")
      historical_file = HISTORICAL_DIR / f"{audio_file.stem}_{timestamp}{audio_file.suffix}"
  shutil.move(str(audio_file), str(historical_file))
  \<close>
  \<^verbatim>\<open>shutil.move\<close> onto the path of an existing file replaces that file; it raises
  when the source is not there.
\<close>

definition timestamped :: "string \<Rightarrow> string \<Rightarrow> string" where
  "timestamped audio_file timestamp = stem audio_file @ ''_'' @ timestamp @ suffix audio_file"

definition historical_file :: "struct_time \<Rightarrow> string \<Rightarrow> sys \<Rightarrow> string" where
  "historical_file now audio_file s =
     (if map_of (historical s) audio_file \<noteq> None
      then (let timestamp = strftime_stamp now in timestamped audio_file timestamp)
      else audio_file)"

definition shutil_move :: "string \<Rightarrow> string \<Rightarrow> sys \<Rightarrow> exn + sys" where
  "shutil_move src dst s =
     (case map_of (audio s) src of
        None \<Rightarrow> Inl FileNotFoundError
      | Some content \<Rightarrow>
          Inr (s\<lparr>audio := AList.delete src (audio s),
                 historical := AList.update dst content (historical s)\<rparr>))"

definition move_to_historical :: "struct_time \<Rightarrow> string \<Rightarrow> sys \<Rightarrow> exn + sys" where
  "move_to_historical now audio_file s = shutil_move audio_file (historical_file now audio_file s) s"

text \<open>One entry of \<^verbatim>\<open>results\<close>.\<close>

record entry =
  name :: string
  words :: nat
  time :: int

text \<open>
  The body of the loop \<^verbatim>\<open>for i, audio_file in enumerate(audio_files, 1)\<close>. Nothing
  in it is inside a \<^verbatim>\<open>try\<close>: what the engine raises leaves the loop and
  \<^verbatim>\<open>main\<close>, before the text is saved and before the file is moved.
\<close>

definition process_file :: "world \<Rightarrow> nat \<Rightarrow> string \<Rightarrow> sys \<Rightarrow> (exn + entry) \<times> sys" where
  "process_file w i audio_file s =
     (case get_audio_duration w audio_file s of
        (Inl e, s1) \<Rightarrow> (Inl e, s1)
      | (Inr audio_duration, s1) \<Rightarrow>
          (let estimated_process_time = audio_duration * PROCESS_RATIO;
               s2 = emit (Transcribe (path_join AUDIO_DIR audio_file) ''es'') s1
           in case transcribe w (path_join AUDIO_DIR audio_file) of
                Inl e \<Rightarrow> (Inl e, s2)
              | Inr result_text \<Rightarrow>
                  (let duration = seconds_taken w i;
                       s3 = save_transcription audio_file result_text s2;
                       word_count = length (split (strip result_text))
                   in case move_to_historical (localtime w i) audio_file s3 of
                        Inl e \<Rightarrow> (Inl e, s3)
                      | Inr s4 \<Rightarrow>
                          (Inr \<lparr>name = stem audio_file, words = word_count, time = duration\<rparr>, s4))))"

fun process_files ::
  "world \<Rightarrow> nat \<Rightarrow> string list \<Rightarrow> int \<times> entry list \<Rightarrow> sys \<Rightarrow> (exn + int \<times> entry list) \<times> sys" where
  "process_files w i [] acc s = (Inr acc, s)"
| "process_files w i (audio_file # rest) (total_time, results) s =
     (case process_file w i audio_file s of
        (Inl e, s') \<Rightarrow> (Inl e, s')
      | (Inr r, s') \<Rightarrow> process_files w (i + 1) rest (total_time + time r, results @ [r]) s')"

text \<open>The texts of the notifications, in UTF-8.\<close>

definition no_files_message :: string where
  "no_files_message = ''No hay archivos de audio para procesar''"

definition starting_message :: "nat \<Rightarrow> string" where
  "starting_message n =
     ''Iniciando transcripci'' @ [CHR 0xC3, CHR 0xB3] @ ''n de '' @ decimal n @ '' archivo(s)''"

definition complete_title :: string where
  "complete_title =
     [CHR 0xE2, CHR 0x9C, CHR 0x85] @ '' Transcripci'' @ [CHR 0xC3, CHR 0xB3] @ ''n Completa''"

definition bullet :: string where
  "bullet = [CHR 0xE2, CHR 0x80, CHR 0xA2]"

definition complete_message :: "nat \<Rightarrow> nat \<Rightarrow> int \<Rightarrow> string" where
  "complete_message n total_words total_time =
     decimal n @ '' archivo(s) '' @ bullet @ '' '' @ fmt_comma total_words @ '' palabras ''
     @ bullet @ '' '' @ format_time total_time"

text \<open>
  \<^verbatim>\<open>main\<close> returns the exception that ended the run, if any, and the state it
  leaves behind.
\<close>

definition main :: "world \<Rightarrow> sys \<Rightarrow> exn option \<times> sys" where
  "main w s0 =
     (let audio_files = find_audio_files s0 in
      if audio_files = [] then
        (case notify w ''Transcriptor'' no_files_message True s0 of
           (Inl e, s1) \<Rightarrow> (Some e, s1)
         | (Inr _, s1) \<Rightarrow> (None, s1))
      else
        (case list_files w audio_files s0 of
           (Inl e, s1) \<Rightarrow> (Some e, s1)
         | (Inr _, s1) \<Rightarrow>
             (let s2 = emit (LoadModel ''medium'') s1 in
              case load_model w ''medium'' of
                Some e \<Rightarrow> (Some e, s2)
              | None \<Rightarrow>
                  (case notify w ''Transcriptor'' (starting_message (length audio_files)) True s2 of
                     (Inl e, s3) \<Rightarrow> (Some e, s3)
                   | (Inr _, s3) \<Rightarrow>
                       (case process_files w 1 audio_files (0, []) s3 of
                          (Inl e, s4) \<Rightarrow> (Some e, s4)
                        | (Inr (total_time, results), s4) \<Rightarrow>
                            (let total_words = sum_list (map words results) in
                             case notify w complete_title
                                    (complete_message (length results) total_words total_time) True s4 of
                               (Inl e, s5) \<Rightarrow> (Some e, s5)
                             | (Inr _, s5) \<Rightarrow>
                                 (case run w [''open'', OUTPUT_DIR] s5 of
                                    (Inl e, s6) \<Rightarrow> (Some e, s6)
                                  | (Inr _, s6) \<Rightarrow> (None, s6))))))))"

subsection \<open>Notions for stating the properties\<close>

text \<open>Two states hold the same files in the three directories.\<close>

definition same_dirs :: "sys \<Rightarrow> sys \<Rightarrow> bool" where
  "same_dirs s s' =
     (audio s' = audio s \<and> transcriptions s' = transcriptions s \<and> historical s' = historical s)"

text \<open>The text that is saved for a file the engine accepts, and the two calls made for a file.\<close>

definition saved_text :: "world \<Rightarrow> string \<Rightarrow> string" where
  "saved_text w audio_file =
     (case transcribe w (path_join AUDIO_DIR audio_file) of Inr t \<Rightarrow> strip t | Inl e \<Rightarrow> [])"

definition calls_for :: "string \<Rightarrow> event list" where
  "calls_for audio_file =
     [Spawn (ffprobe_argv (path_join AUDIO_DIR audio_file)),
      Transcribe (path_join AUDIO_DIR audio_file) ''es'']"

subsection \<open>Concrete worlds and states for the examples\<close>

text \<open>
  A world where every program starts and exits with status 0 printing nothing, the model
  loads, and the engine answers every path with a text padded by blanks.
\<close>

definition ex_time :: struct_time where
  "ex_time = \<lparr>tm_year = 2026, tm_mon = 1, tm_mday = 2, tm_hour = 3, tm_min = 4, tm_sec = 5\<rparr>"

definition ex_world :: world where
  "ex_world =
     \<lparr>subprocess_run = (\<lambda>argv. Inr \<lparr>returncode = 0, stdout = []\<rparr>),
      float_of_str = (\<lambda>s. None),
      load_model = (\<lambda>m. None),
      transcribe = (\<lambda>p. Inr ('' texto de '' @ p @ '' '')),
      localtime = (\<lambda>i. ex_time),
      seconds_taken = (\<lambda>i. 4)\<rparr>"

text \<open>No program can be started: neither \<^verbatim>\<open>osascript\<close> nor \<^verbatim>\<open>ffprobe\<close> is installed.\<close>

definition ex_world_no_programs :: world where
  "ex_world_no_programs = ex_world\<lparr>subprocess_run := (\<lambda>argv. Inl FileNotFoundError)\<rparr>"

text \<open>Every program starts and exits with status 1, printing nothing.\<close>

definition ex_world_exit_1 :: world where
  "ex_world_exit_1 = ex_world\<lparr>subprocess_run := (\<lambda>argv. Inr \<lparr>returncode = 1, stdout = []\<rparr>)\<rparr>"

text \<open>Every program exits with status 1 after printing a number, which \<^verbatim>\<open>float\<close> reads.\<close>

definition ex_world_exit_1_number :: world where
  "ex_world_exit_1_number =
     ex_world\<lparr>subprocess_run := (\<lambda>argv. Inr \<lparr>returncode = 1, stdout = ''12.5'' @ [CHR 0x0A]\<rparr>),
              float_of_str := (\<lambda>s. if s = ''12.5'' then Some (25 / 2) else None)\<rparr>"

definition ex_empty :: sys where
  "ex_empty = \<lparr>audio = [], transcriptions = [], historical = [], trace = []\<rparr>"

text \<open>An input directory with one audio file of three bytes and a file that is not audio.\<close>

definition ex_one_file :: sys where
  "ex_one_file = ex_empty\<lparr>audio := [(''a.wav'', ''abc''), (''notes.txt'', ''n'')]\<rparr>"

text \<open>
  An archive that already holds \<^verbatim>\<open>a.wav\<close> and a file under the name that
  \<^verbatim>\<open>a.wav\<close> gets at the time \<open>ex_time\<close>, and an input directory with a new
  \<^verbatim>\<open>a.wav\<close>.
\<close>

definition ex_clash :: sys where
  "ex_clash =
     \<lparr>audio = [(''a.wav'', ''new'')],
      transcriptions = [],
      historical = [(''a.wav'', ''old''), (''a_20260102_030405.wav'', ''older'')],
      trace = []\<rparr>"

text \<open>The same, without the file under the timestamped name.\<close>

definition ex_rerun :: sys where
  "ex_rerun = ex_clash\<lparr>historical := [(''a.wav'', ''old'')]\<rparr>"

text \<open>
  An input directory with two files of the same stem, and one with three files; a world
  whose engine raises on \<^verbatim>\<open>b.mp3\<close>.
\<close>

definition ex_twins :: sys where
  "ex_twins = ex_empty\<lparr>audio := [(''a.wav'', ''ww''), (''a.mp3'', ''mm'')]\<rparr>"

definition ex_three :: sys where
  "ex_three =
     ex_empty\<lparr>audio := [(''c.wav'', ''cc''), (''b.mp3'', ''bb''), (''a.wav'', ''aa'')],
              historical := [(''a.wav'', ''old'')]\<rparr>"

definition ex_world_bad_b :: world where
  "ex_world_bad_b =
     ex_world\<lparr>transcribe := (\<lambda>p. if p = ''audio/b.mp3'' then Inl (RuntimeError ''corrupt'')
                                else Inr ('' texto de '' @ p @ '' ''))\<rparr>"

section \<open>Properties\<close>

subsection \<open>Decimal renderings\<close>

lemma digit_char_is_digit: "d < 10 \<Longrightarrow> is_digit (digit_char d)"
  by (simp add: is_digit_def digit_char_def)

lemma digit_val_digit_char: "d < 10 \<Longrightarrow> digit_val (digit_char d) = d"
  by (simp add: digit_val_def digit_char_def)

lemma decimal_digits: "list_all is_digit (decimal n)"
proof (induction n rule: decimal.induct)
  case (1 n)
  show ?case
  proof (cases "n < 10")
    case True
    then show ?thesis by (simp add: decimal.simps [of n] digit_char_is_digit)
  next
    case False
    with 1 show ?thesis by (simp add: decimal.simps [of n] digit_char_is_digit)
  qed
qed

lemma read_decimal_snoc: "read_decimal (s @ [c]) = 10 * read_decimal s + digit_val c"
  by (simp add: read_decimal_def)

lemma read_decimal_decimal: "read_decimal (decimal n) = n"
proof (induction n rule: decimal.induct)
  case (1 n)
  show ?case
  proof (cases "n < 10")
    case True
    then show ?thesis by (simp add: decimal.simps [of n] read_decimal_def digit_val_digit_char)
  next
    case False
    with 1 show ?thesis
      by (simp add: decimal.simps [of n] read_decimal_snoc digit_val_digit_char)
  qed
qed

lemma read_decimal_zeros: "read_decimal (replicate k (CHR ''0'') @ s) = read_decimal s"
  by (induction k) (simp_all add: read_decimal_def digit_val_def)

lemma read_decimal_zfill: "read_decimal (zfill w (decimal n)) = n"
  by (simp add: zfill_def read_decimal_zeros read_decimal_decimal)

lemma zfill_digits: "list_all is_digit s \<Longrightarrow> list_all is_digit (zfill w s)"
  by (auto simp add: zfill_def list_all_iff is_digit_def)

lemma length_zfill: "length (zfill w s) = max w (length s)"
  by (simp add: zfill_def)

lemma length_decimal_small:
  assumes "n < 100"
  shows "length (decimal n) \<le> 2"
proof -
  from assms have "n div 10 < 10" by simp
  then have "length (decimal (n div 10)) = 1" by (simp add: decimal.simps [of "n div 10"])
  then show ?thesis by (simp add: decimal.simps [of n])
qed

lemma format_time_nonneg:
  assumes "0 \<le> s"
  shows "format_time s = zfill 2 (decimal (nat (s div 60))) @ '':'' @ zfill 2 (decimal (nat (s mod 60)))"
proof -
  from assms have "\<not> s div 60 < 0" by (simp add: pos_imp_zdiv_nonneg_iff not_less)
  moreover have "\<not> s mod 60 < 0" by (simp add: not_less)
  ultimately show ?thesis by (simp add: format_time_def fmt_02d_def Let_def)
qed

subsection \<open>The time formatter\<close>

text \<open>
  Claim C6. For a non-negative number of seconds \<open>s\<close>, \<open>format_time s\<close> is a minutes
  field, a colon and a seconds field. Both fields are made of decimal digits; the minutes
  field reads \<open>s div 60\<close> and is as wide as that number needs, at least two characters
  (so it grows beyond 59 without bound); the seconds field reads \<open>s mod 60\<close> and is
  exactly two characters wide. In particular 125 seconds give \<open>02:05\<close> and 0 seconds
  give \<open>00:00\<close>.
\<close>

theorem format_time_MM_SS:
  assumes "0 \<le> s"
  shows "(\<exists>mm ss. format_time s = mm @ '':'' @ ss
            \<and> list_all is_digit mm \<and> read_decimal mm = nat (s div 60)
            \<and> length mm = max 2 (length (decimal (nat (s div 60))))
            \<and> list_all is_digit ss \<and> read_decimal ss = nat (s mod 60) \<and> length ss = 2)
         \<and> format_time 125 = ''02:05'' \<and> format_time 0 = ''00:00''"
proof -
  let ?mm = "zfill 2 (decimal (nat (s div 60)))"
  let ?ss = "zfill 2 (decimal (nat (s mod 60)))"
  have "nat (s mod 60) < 100" by simp
  then have "length (decimal (nat (s mod 60))) \<le> 2" by (rule length_decimal_small)
  then have "length ?ss = 2" by (simp add: length_zfill)
  then have "\<exists>mm ss. format_time s = mm @ '':'' @ ss
            \<and> list_all is_digit mm \<and> read_decimal mm = nat (s div 60)
            \<and> length mm = max 2 (length (decimal (nat (s div 60))))
            \<and> list_all is_digit ss \<and> read_decimal ss = nat (s mod 60) \<and> length ss = 2"
    using format_time_nonneg [OF assms]
    by (intro exI [of _ ?mm] exI [of _ ?ss])
       (simp add: zfill_digits decimal_digits read_decimal_zfill length_zfill)
  moreover have "format_time 125 = ''02:05''" by code_simp
  moreover have "format_time 0 = ''00:00''" by code_simp
  ultimately show ?thesis by blast
qed

theorem format_time_MM_SS_witness:
  "(0::int) \<le> 6000 \<and> format_time 6000 = ''100:00''
   \<and> (\<exists>mm ss. format_time 6000 = mm @ '':'' @ ss \<and> read_decimal mm = 100 \<and> read_decimal ss = 0
        \<and> length ss = 2)"
proof -
  have h: "(0::int) \<le> 6000" by simp
  have v: "format_time 6000 = ''100:00''" by code_simp
  from format_time_MM_SS [OF h] obtain mm ss where
    "format_time 6000 = mm @ '':'' @ ss" "read_decimal mm = nat (6000 div 60)"
    "read_decimal ss = nat (6000 mod 60)" "length ss = 2"
    by blast
  then have "format_time 6000 = mm @ '':'' @ ss \<and> read_decimal mm = 100 \<and> read_decimal ss = 0
     \<and> length ss = 2"
    by simp
  with h v show ?thesis by blast
qed

subsection \<open>The progress reporter\<close>

lemma progress_loop_runs:
  assumes "is_set n" and "\<forall>k. idx \<le> k \<and> k < n \<longrightarrow> \<not> is_set k" and "idx \<le> n"
  shows "progress_loop is_set est idx written
         = Some (written @ map (tick_line est) [idx..<n] @ [final_line n], n)"
  using assms
proof (induction "n - idx" arbitrary: idx written)
  case 0
  then have "idx = n" by simp
  with 0 show ?case by (subst progress_loop.simps) simp
next
  case (Suc d)
  then have lt: "idx < n" by simp
  with Suc.prems have ns: "\<not> is_set idx" by simp
  have "progress_loop is_set est (idx + 1) (written @ [tick_line est idx])
        = Some ((written @ [tick_line est idx]) @ map (tick_line est) [idx + 1..<n] @ [final_line n], n)"
    using Suc.hyps Suc.prems lt by (intro Suc.hyps(1)) auto
  moreover have "[idx..<n] = idx # [idx + 1..<n]" using lt by (simp add: upt_conv_Cons)
  ultimately show ?case using ns by (subst progress_loop.simps) simp
qed

lemma show_progress_bar_runs:
  assumes "is_set n" and "\<forall>k<n. \<not> is_set k"
  shows "show_progress_bar is_set file_name est = Some (map (tick_line est) [0..<n] @ [final_line n], n)"
  using progress_loop_runs [of is_set n 0 est "[]"] assms by (simp add: show_progress_bar_def)

lemma show_progress_bar_returns:
  assumes "is_set m"
  shows "\<exists>r. show_progress_bar is_set file_name est = Some r"
proof -
  let ?n = "LEAST k. is_set k"
  have "is_set ?n" using assms by (rule LeastI)
  moreover have "\<forall>k<?n. \<not> is_set k" using not_less_Least by blast
  ultimately show ?thesis using show_progress_bar_runs by blast
qed

lemma tick_line_not_final: "\<not> is_final (tick_line est k)"
  by (simp add: tick_line_def Let_def)




text \<open>
  Claim C7. When the stop flag is found set at the \<open>n\<close>-th test and not before, the
  reporter returns: it has written the \<open>n\<close> lines of the ticks, none of them a final
  line, and then exactly one final line, whose bar is thirty full blocks and whose time is
  the tick count \<open>n\<close>, whatever the estimate was; the value returned is \<open>n\<close>.
\<close>

theorem stop_gives_one_full_final_line:
  assumes "is_set n" and "\<forall>k<n. \<not> is_set k"
  shows "\<exists>ticks. show_progress_bar is_set file_name est
                   = Some (ticks @ [FinalLine (replicate 30 full_block) (format_time (int n))], n)
               \<and> length ticks = n \<and> list_all (\<lambda>l. \<not> is_final l) ticks"
proof -
  let ?ticks = "map (tick_line est) [0..<n]"
  have "final_line n = FinalLine (replicate 30 full_block) (format_time (int n))"
    by (simp add: final_line_def times_def bar_width_def)
  with show_progress_bar_runs [OF assms, of file_name est]
  have "show_progress_bar is_set file_name est
          = Some (?ticks @ [FinalLine (replicate 30 full_block) (format_time (int n))], n)"
    by simp
  moreover have "length ?ticks = n" by simp
  moreover have "list_all (\<lambda>l. \<not> is_final l) ?ticks"
    by (simp add: list_all_iff tick_line_not_final)
  ultimately show ?thesis by blast
qed

theorem stop_gives_one_full_final_line_witness:
  "(\<lambda>k::nat. 3 \<le> k) 3 \<and> list_all (\<lambda>k. \<not> (\<lambda>k::nat. 3 \<le> k) k) [0, 1, 2]
   \<and> (\<exists>ticks. show_progress_bar (\<lambda>k. 3 \<le> k) ''a'' 2
                   = Some (ticks @ [FinalLine (replicate 30 full_block) ''00:03''], 3)
               \<and> length ticks = 3 \<and> list_all (\<lambda>l. \<not> is_final l) ticks)"
proof -
  have a: "(\<lambda>k::nat. 3 \<le> k) 3" by simp
  have b: "\<forall>k<3. \<not> (\<lambda>k::nat. 3 \<le> k) k" by simp
  have c: "format_time (int 3) = ''00:03''" by code_simp
  from stop_gives_one_full_final_line [of "\<lambda>k. 3 \<le> k" 3 "''a''" 2, OF a b] a b c
  show ?thesis by simp
qed



subsection \<open>State bookkeeping\<close>

lemma emit_dirs [simp]:
  "audio (emit e s) = audio s" "transcriptions (emit e s) = transcriptions s"
  "historical (emit e s) = historical s" "trace (emit e s) = trace s @ [e]"
  by (simp_all add: emit_def)

lemma run_eq: "run w argv s = (subprocess_run w argv, emit (Spawn argv) s)"
  by (simp add: run_def)

lemma st_size_emit [simp]: "st_size (emit e s) fname = st_size s fname"
  by (simp add: st_size_def)

lemma size_fallback_emit [simp]: "size_fallback (emit e s) fname = size_fallback s fname"
  by (simp add: size_fallback_def)

lemma size_fallback_existing:
  "map_of (audio s) fname = Some content
   \<Longrightarrow> size_fallback s fname = Inr (of_nat (length content) / (1024 * 1024) * 6)"
  by (simp add: size_fallback_def st_size_def)

lemma get_audio_duration_state:
  "snd (get_audio_duration w fname s) = emit (Spawn (ffprobe_argv (path_join AUDIO_DIR fname))) s"
  by (simp add: get_audio_duration_def run_eq split: sum.splits option.splits)

lemma get_audio_duration_result:
  "fst (get_audio_duration w fname s) =
     (case subprocess_run w (ffprobe_argv (path_join AUDIO_DIR fname)) of
        Inl e \<Rightarrow> size_fallback s fname
      | Inr result \<Rightarrow>
          (case float_of_str w (strip (stdout result)) of
             None \<Rightarrow> size_fallback s fname
           | Some d \<Rightarrow> Inr d))"
  by (simp add: get_audio_duration_def run_eq split: sum.splits option.splits)

subsection \<open>The notifier\<close>

text \<open>
  Claim C3 says that no failure of the notification mechanism, a missing binary included,
  leaves \<open>notify\<close>. Where \<^verbatim>\<open>osascript\<close> cannot be started,
  \<^verbatim>\<open>subprocess.run\<close> raises and \<open>notify\<close> has no handler: the exception
  leaves it, and a run that has found a file ends at its first notification, before any
  file is transcribed.
\<close>

theorem notify_raises_without_osascript:
  "fst (notify ex_world_no_programs ''Transcriptor'' no_files_message True ex_empty)
     = Inl FileNotFoundError
   \<and> fst (main ex_world_no_programs ex_one_file) = Some FileNotFoundError
   \<and> audio (snd (main ex_world_no_programs ex_one_file)) = audio ex_one_file
   \<and> transcriptions (snd (main ex_world_no_programs ex_one_file)) = []"
proof -
  have "fst (notify ex_world_no_programs ''Transcriptor'' no_files_message True ex_empty)
     = Inl FileNotFoundError"
    by (simp add: notify_def run_eq ex_world_no_programs_def ex_world_def)
  moreover have "fst (main ex_world_no_programs ex_one_file) = Some FileNotFoundError"
    by code_simp
  moreover have "audio (snd (main ex_world_no_programs ex_one_file)) = audio ex_one_file"
    by code_simp
  moreover have "transcriptions (snd (main ex_world_no_programs ex_one_file)) = []"
    by code_simp
  ultimately show ?thesis by blast
qed

text \<open>
  Claim C3, amended. For every title, message and sound flag: when \<^verbatim>\<open>osascript\<close>
  starts, \<open>notify\<close> returns normally whatever the exit status and the output of the
  command are; when it cannot be started, \<open>notify\<close> raises what the launch raised.
  In both cases the only effect is the one call of the command.
\<close>

theorem notify_swallows_exit_status:
  "(\<forall>result. subprocess_run w [''osascript'', ''-e'', notify_script title message sound] = Inr result
       \<longrightarrow> fst (notify w title message sound s) = Inr ())
   \<and> (\<forall>e. subprocess_run w [''osascript'', ''-e'', notify_script title message sound] = Inl e
       \<longrightarrow> fst (notify w title message sound s) = Inl e)
   \<and> snd (notify w title message sound s)
       = emit (Spawn [''osascript'', ''-e'', notify_script title message sound]) s"
  by (simp add: notify_def run_eq split: sum.splits)

theorem notify_swallows_exit_status_witness:
  "subprocess_run ex_world_exit_1 [''osascript'', ''-e'', notify_script ''Transcriptor'' no_files_message True]
     = Inr \<lparr>returncode = 1, stdout = []\<rparr>
   \<and> fst (notify ex_world_exit_1 ''Transcriptor'' no_files_message True ex_empty) = Inr ()"
proof -
  have r: "subprocess_run ex_world_exit_1 [''osascript'', ''-e'', notify_script ''Transcriptor'' no_files_message True]
     = Inr \<lparr>returncode = 1, stdout = []\<rparr>"
    by (simp add: ex_world_exit_1_def ex_world_def)
  with notify_swallows_exit_status [of ex_world_exit_1 "''Transcriptor''" no_files_message True ex_empty]
  show ?thesis by blast
qed

subsection \<open>The duration probe\<close>

text \<open>
  Claim C2 says that the probe never raises and answers the size-based fallback whenever
  the external call fails, a non-zero exit included. Two runs against it: for a file that
  is not there, the handler's own \<^verbatim>\<open>stat\<close> raises; and the exit status is never
  looked at, so a call that exits with status 1 after printing \<^verbatim>\<open>12.5\<close> yields
  12.5, not the fallback of the three-byte file.
\<close>

theorem get_audio_duration_raises_counterexample:
  "fst (get_audio_duration ex_world_exit_1 ''gone.wav'' ex_empty) = Inl FileNotFoundError
   \<and> subprocess_run ex_world_exit_1_number (ffprobe_argv (path_join AUDIO_DIR ''a.wav''))
       = Inr \<lparr>returncode = 1, stdout = ''12.5'' @ [CHR 0x0A]\<rparr>
   \<and> fst (get_audio_duration ex_world_exit_1_number ''a.wav'' ex_one_file) = Inr (25 / 2)
   \<and> size_fallback ex_one_file ''a.wav'' = Inr (9 / 524288)"
  by (simp add: get_audio_duration_result size_fallback_def st_size_def ex_world_exit_1_def
      ex_world_exit_1_number_def ex_world_def ex_empty_def ex_one_file_def strip_def is_space_def)

text \<open>
  Claim C2, amended. For a file that exists in the input directory the probe never raises.
  It answers the fallback \<open>size / (1024 * 1024) * 6\<close> exactly when the external
  program cannot be started or when its output does not read as a number; when the output
  reads as a number, that number is the answer, whatever the exit status.
\<close>

theorem get_audio_duration_on_existing_file:
  assumes "map_of (audio s) fname = Some content"
  shows "(\<exists>d. fst (get_audio_duration w fname s) = Inr d)
       \<and> (\<forall>e. subprocess_run w (ffprobe_argv (path_join AUDIO_DIR fname)) = Inl e
            \<longrightarrow> fst (get_audio_duration w fname s) = Inr (of_nat (length content) / (1024 * 1024) * 6))
       \<and> (\<forall>result. subprocess_run w (ffprobe_argv (path_join AUDIO_DIR fname)) = Inr result
                  \<and> float_of_str w (strip (stdout result)) = None
            \<longrightarrow> fst (get_audio_duration w fname s) = Inr (of_nat (length content) / (1024 * 1024) * 6))
       \<and> (\<forall>result d. subprocess_run w (ffprobe_argv (path_join AUDIO_DIR fname)) = Inr result
                  \<and> float_of_str w (strip (stdout result)) = Some d
            \<longrightarrow> fst (get_audio_duration w fname s) = Inr d)"
proof -
  define fb :: rat where "fb = of_nat (length content) / (1024 * 1024) * 6"
  have fb: "size_fallback s fname = Inr fb"
    unfolding fb_def by (rule size_fallback_existing [OF assms])
  have r: "fst (get_audio_duration w fname s) =
     (case subprocess_run w (ffprobe_argv (path_join AUDIO_DIR fname)) of
        Inl e \<Rightarrow> Inr fb
      | Inr result \<Rightarrow>
          (case float_of_str w (strip (stdout result)) of None \<Rightarrow> Inr fb | Some d \<Rightarrow> Inr d))"
    by (simp only: get_audio_duration_result fb)
  have "\<exists>d. fst (get_audio_duration w fname s) = Inr d"
    unfolding r by (simp split: sum.splits option.splits)
  moreover have "\<forall>e. subprocess_run w (ffprobe_argv (path_join AUDIO_DIR fname)) = Inl e
            \<longrightarrow> fst (get_audio_duration w fname s) = Inr fb"
    unfolding r by simp
  moreover have "\<forall>result. subprocess_run w (ffprobe_argv (path_join AUDIO_DIR fname)) = Inr result
                  \<and> float_of_str w (strip (stdout result)) = None
            \<longrightarrow> fst (get_audio_duration w fname s) = Inr fb"
    unfolding r by simp
  moreover have "\<forall>result d. subprocess_run w (ffprobe_argv (path_join AUDIO_DIR fname)) = Inr result
                  \<and> float_of_str w (strip (stdout result)) = Some d
            \<longrightarrow> fst (get_audio_duration w fname s) = Inr d"
    unfolding r by simp
  ultimately show ?thesis unfolding fb_def by blast
qed

theorem get_audio_duration_on_existing_file_witness:
  "map_of (audio ex_one_file) ''a.wav'' = Some ''abc''
   \<and> subprocess_run ex_world_no_programs (ffprobe_argv (path_join AUDIO_DIR ''a.wav'')) = Inl FileNotFoundError
   \<and> fst (get_audio_duration ex_world_no_programs ''a.wav'' ex_one_file) = Inr (3 / (1024 * 1024) * 6)"
proof -
  have f: "map_of (audio ex_one_file) ''a.wav'' = Some ''abc''"
    by (simp add: ex_one_file_def ex_empty_def)
  have r: "subprocess_run ex_world_no_programs (ffprobe_argv (path_join AUDIO_DIR ''a.wav'')) = Inl FileNotFoundError"
    by (simp add: ex_world_no_programs_def ex_world_def)
  from get_audio_duration_on_existing_file [OF f, of ex_world_no_programs] r
  have "fst (get_audio_duration ex_world_no_programs ''a.wav'' ex_one_file)
          = Inr (of_nat (length ''abc'') / (1024 * 1024) * 6)"
    by blast
  with f r show ?thesis by simp
qed

subsection \<open>Saving the text\<close>

lemma output_file_stem: "stem g = stem f \<Longrightarrow> output_file g = output_file f"
  by (simp add: output_file_def)

lemma save_transcription_dirs [simp]:
  "audio (save_transcription f t s) = audio s"
  "historical (save_transcription f t s) = historical s"
  "trace (save_transcription f t s) = trace s"
  "transcriptions (save_transcription f t s) = AList.update (output_file f) (strip t) (transcriptions s)"
  by (simp_all add: save_transcription_def write_text_def Let_def)

subsection \<open>Moving the original into the archive\<close>

lemma shutil_move_existing:
  "map_of (audio s) src = Some content \<Longrightarrow>
   shutil_move src dst s
     = Inr (s\<lparr>audio := AList.delete src (audio s),
               historical := AList.update dst content (historical s)\<rparr>)"
  by (simp add: shutil_move_def)

text \<open>
  Claim C5 says that no archived file is ever overwritten. When the archive holds a file
  under the original name and also one under the timestamped name, the move replaces the
  latter: its old content is gone.
\<close>

theorem archive_overwrites_taken_timestamp:
  "map_of (historical ex_clash) ''a_20260102_030405.wav'' = Some ''older''
   \<and> move_to_historical ex_time ''a.wav'' ex_clash
       = Inr \<lparr>audio = [], transcriptions = [],
              historical = [(''a.wav'', ''old''), (''a_20260102_030405.wav'', ''new'')],
              trace = []\<rparr>"
  by code_simp

text \<open>
  Claim C5, amended. Moving a processed file into the archive: when a file of the same
  name is already there, the file is moved under the name with the timestamp suffix; and
  provided that no archived file has that timestamped name, the target name was free,
  the moved file is there afterwards under the target name, and every file that was in
  the archive is still there with its content (so both files are present).
\<close>

theorem archive_move_keeps_history:
  assumes src: "map_of (audio s) f = Some content"
      and free: "map_of (historical s) f \<noteq> None
                 \<longrightarrow> map_of (historical s) (timestamped f (strftime_stamp now)) = None"
  shows "\<exists>s' dst. move_to_historical now f s = Inr s'
            \<and> dst = (if map_of (historical s) f \<noteq> None
                      then timestamped f (strftime_stamp now) else f)
            \<and> map_of (historical s) dst = None
            \<and> map_of (historical s') dst = Some content
            \<and> (\<forall>n. n \<noteq> dst \<longrightarrow> map_of (historical s') n = map_of (historical s) n)
            \<and> (\<forall>old. map_of (historical s) f = Some old
                   \<longrightarrow> dst \<noteq> f \<and> map_of (historical s') f = Some old)
            \<and> map_of (audio s') f = None"
proof -
  let ?dst = "historical_file now f s"
  let ?s' = "s\<lparr>audio := AList.delete f (audio s),
               historical := AList.update ?dst content (historical s)\<rparr>"
  have d: "?dst = (if map_of (historical s) f \<noteq> None
                   then timestamped f (strftime_stamp now) else f)"
    by (simp add: historical_file_def)
  have "move_to_historical now f s = Inr ?s'"
    by (simp add: move_to_historical_def shutil_move_existing [OF src])
  moreover have "map_of (historical s) ?dst = None" using free by (simp add: d)
  moreover have "map_of (audio ?s') f = None" by (simp add: delete_conv')
  moreover have "map_of (historical ?s') ?dst = Some content" by (simp add: update_conv')
  moreover have "\<forall>n. n \<noteq> ?dst \<longrightarrow> map_of (historical ?s') n = map_of (historical s) n"
    by (simp add: update_conv')
  moreover have "\<forall>old. map_of (historical s) f = Some old
                   \<longrightarrow> ?dst \<noteq> f \<and> map_of (historical ?s') f = Some old"
    using free by (auto simp add: d update_conv')
  ultimately show ?thesis using d by blast
qed

theorem archive_move_keeps_history_witness:
  "map_of (audio ex_rerun) ''a.wav'' = Some ''new''
   \<and> map_of (historical ex_rerun) ''a.wav'' = Some ''old''
   \<and> map_of (historical ex_rerun) (timestamped ''a.wav'' (strftime_stamp ex_time)) = None
   \<and> (\<exists>s'. move_to_historical ex_time ''a.wav'' ex_rerun = Inr s'
            \<and> map_of (historical s') ''a.wav'' = Some ''old''
            \<and> map_of (historical s') ''a_20260102_030405.wav'' = Some ''new''
            \<and> map_of (audio s') ''a.wav'' = None)"
proof -
  have a: "map_of (audio ex_rerun) ''a.wav'' = Some ''new''" by code_simp
  have h: "map_of (historical ex_rerun) ''a.wav'' = Some ''old''" by code_simp
  have t: "timestamped ''a.wav'' (strftime_stamp ex_time) = ''a_20260102_030405.wav''" by code_simp
  have f: "map_of (historical ex_rerun) ''a_20260102_030405.wav'' = None" by code_simp
  from archive_move_keeps_history [OF a, of ex_time] h t f
  obtain s' where "move_to_historical ex_time ''a.wav'' ex_rerun = Inr s'"
    "map_of (historical s') ''a_20260102_030405.wav'' = Some ''new''"
    "\<forall>n. n \<noteq> ''a_20260102_030405.wav'' \<longrightarrow> map_of (historical s') n = map_of (historical ex_rerun) n"
    "map_of (audio s') ''a.wav'' = None"
    by auto
  moreover from this h have "map_of (historical s') ''a.wav'' = Some ''old''" by simp
  ultimately show ?thesis using a h t f by auto
qed

subsection \<open>The empty batch\<close>

text \<open>
  Claim C8 says that a run that finds no audio file returns without error. It does so only
  if the notification can be sent: where \<^verbatim>\<open>osascript\<close> cannot be started, the one
  notification of the empty run raises, and the run ends with that exception (the cause is
  the one of claim C3).
\<close>

theorem no_audio_files_aborts_without_osascript:
  "find_audio_files ex_empty = []
   \<and> main ex_world_no_programs ex_empty
       = (Some FileNotFoundError,
          ex_empty\<lparr>trace := [Spawn [''osascript'', ''-e'',
                                  notify_script ''Transcriptor'' no_files_message True]]\<rparr>)"
  by (simp add: main_def find_audio_files_def notify_def run_eq emit_def ex_empty_def
      ex_world_no_programs_def ex_world_def)

text \<open>
  Claim C8, amended. When no file of the input directory has a supported extension,
  \<open>main\<close> does one thing only: it calls the notification command once, with the
  "no files" message. The model is not loaded, no file is probed, transcribed, written or
  moved. The run returns without error if the notification command could be started, and
  ends with the launch error otherwise.
\<close>

theorem no_audio_files_short_circuit:
  assumes "\<forall>f \<in> set (map fst (audio s0)). \<not> is_audio f"
  shows "snd (main w s0)
           = emit (Spawn [''osascript'', ''-e'', notify_script ''Transcriptor'' no_files_message True]) s0
       \<and> (\<forall>result. subprocess_run w [''osascript'', ''-e'',
                          notify_script ''Transcriptor'' no_files_message True] = Inr result
            \<longrightarrow> fst (main w s0) = None)
       \<and> (\<forall>e. subprocess_run w [''osascript'', ''-e'',
                          notify_script ''Transcriptor'' no_files_message True] = Inl e
            \<longrightarrow> fst (main w s0) = Some e)"
proof -
  from assms have "filter is_audio (map fst (audio s0)) = []"
    by (simp add: filter_empty_conv)
  then have "find_audio_files s0 = []" by (simp add: find_audio_files_def)
  then show ?thesis
    by (simp add: main_def notify_def run_eq split: sum.splits)
qed

theorem no_audio_files_short_circuit_witness:
  "list_all (\<lambda>f. \<not> is_audio f) (map fst (audio (ex_empty\<lparr>audio := [(''notes.txt'', ''n'')]\<rparr>)))
   \<and> main ex_world (ex_empty\<lparr>audio := [(''notes.txt'', ''n'')]\<rparr>)
       = (None, \<lparr>audio = [(''notes.txt'', ''n'')], transcriptions = [], historical = [],
                 trace = [Spawn [''osascript'', ''-e'',
                                 notify_script ''Transcriptor'' no_files_message True]]\<rparr>)"
proof -
  let ?s = "ex_empty\<lparr>audio := [(''notes.txt'', ''n'')]\<rparr>"
  have n: "\<not> is_audio ''notes.txt''" by code_simp
  then have h: "\<forall>f \<in> set (map fst (audio ?s)). \<not> is_audio f" by simp
  have r: "subprocess_run ex_world [''osascript'', ''-e'',
              notify_script ''Transcriptor'' no_files_message True] = Inr \<lparr>returncode = 0, stdout = []\<rparr>"
    by (simp add: ex_world_def)
  from no_audio_files_short_circuit [OF h, of ex_world] r
  have "snd (main ex_world ?s)
          = emit (Spawn [''osascript'', ''-e'', notify_script ''Transcriptor'' no_files_message True]) ?s"
    and "fst (main ex_world ?s) = None"
    by blast+
  then have "main ex_world ?s
          = (None, emit (Spawn [''osascript'', ''-e'', notify_script ''Transcriptor'' no_files_message True]) ?s)"
    by (simp add: prod_eq_iff)
  then show ?thesis using n by (simp add: emit_def ex_empty_def)
qed

subsection \<open>One file of the batch\<close>

lemma get_audio_duration_existing:
  assumes "map_of (audio s) f = Some c"
  shows "\<exists>d. get_audio_duration w f s = (Inr d, emit (Spawn (ffprobe_argv (path_join AUDIO_DIR f))) s)"
proof -
  from size_fallback_existing [OF assms] obtain x where x: "size_fallback s f = Inr x"
    by blast
  have "\<exists>d. fst (get_audio_duration w f s) = Inr d"
    unfolding get_audio_duration_result x by (simp split: sum.splits option.splits)
  then show ?thesis
    using get_audio_duration_state [of w f s] by (auto simp add: prod_eq_iff)
qed

lemma process_file_ok:
  assumes "map_of (audio s) f = Some c" and "transcribe w (path_join AUDIO_DIR f) = Inr t"
  shows "\<exists>r s'. process_file w i f s = (Inr r, s')
           \<and> audio s' = AList.delete f (audio s)
           \<and> transcriptions s' = AList.update (output_file f) (strip t) (transcriptions s)
           \<and> historical s' = AList.update (historical_file (localtime w i) f s) c (historical s)
           \<and> trace s' = trace s @ calls_for f"
proof -
  from get_audio_duration_existing [OF assms(1), of w] obtain d where
    d: "get_audio_duration w f s = (Inr d, emit (Spawn (ffprobe_argv (path_join AUDIO_DIR f))) s)"
    by blast
  let ?s2 = "emit (Transcribe (path_join AUDIO_DIR f) ''es'') (emit (Spawn (ffprobe_argv (path_join AUDIO_DIR f))) s)"
  let ?s3 = "save_transcription f t ?s2"
  have a3: "map_of (audio ?s3) f = Some c" using assms(1) by simp
  have hf: "historical_file (localtime w i) f ?s3 = historical_file (localtime w i) f s"
    by (simp add: historical_file_def)
  have mv: "move_to_historical (localtime w i) f ?s3
            = Inr (?s3\<lparr>audio := AList.delete f (audio ?s3),
                       historical := AList.update (historical_file (localtime w i) f s) c (historical ?s3)\<rparr>)"
    by (simp only: move_to_historical_def shutil_move_existing [OF a3] hf)
  show ?thesis
    by (simp add: process_file_def d assms(2) Let_def mv calls_for_def del: save_transcription_dirs)
       (simp add: calls_for_def)
qed

lemma process_file_engine_raises:
  assumes "map_of (audio s) f = Some c" and "transcribe w (path_join AUDIO_DIR f) = Inl e"
  shows "\<exists>s'. process_file w i f s = (Inl e, s') \<and> same_dirs s s' \<and> trace s' = trace s @ calls_for f"
proof -
  from get_audio_duration_existing [OF assms(1), of w] obtain d where
    d: "get_audio_duration w f s = (Inr d, emit (Spawn (ffprobe_argv (path_join AUDIO_DIR f))) s)"
    by blast
  show ?thesis
    by (simp add: process_file_def d assms(2) Let_def same_dirs_def calls_for_def)
qed

text \<open>
  Claim C9. Saving the text of an input whose base name was saved before (the same file,
  or another with the same stem) replaces the content of \<^verbatim>\<open><stem>.txt\<close> in
  place: the listing of the output directory is the same as after the first save, the
  file holds the stripped text of the second save, no other file of the directory
  changes, and saving the same text again changes nothing at all. More generally, a save
  onto an output file that exists leaves the listing of the output directory as it is.
  Processing a file that the engine accepts changes the output directory by exactly this
  save.
\<close>

theorem save_transcription_overwrites_in_place:
  assumes "stem g = stem f"
  shows "map fst (transcriptions (save_transcription g t2 (save_transcription f t1 s)))
           = map fst (transcriptions (save_transcription f t1 s))
       \<and> map_of (transcriptions (save_transcription f t1 s)) (stem f @ ''.txt'') = Some (strip t1)
       \<and> map_of (transcriptions (save_transcription g t2 (save_transcription f t1 s))) (stem f @ ''.txt'')
           = Some (strip t2)
       \<and> (\<forall>n. n \<noteq> stem f @ ''.txt'' \<longrightarrow>
             map_of (transcriptions (save_transcription g t2 (save_transcription f t1 s))) n
               = map_of (transcriptions s) n)
       \<and> save_transcription g t1 (save_transcription f t1 s) = save_transcription f t1 s
       \<and> (map_of (transcriptions s) (output_file f) \<noteq> None
            \<longrightarrow> map fst (transcriptions (save_transcription f t1 s)) = map fst (transcriptions s))
       \<and> (\<forall>c. map_of (audio s) f = Some c \<and> transcribe w (path_join AUDIO_DIR f) = Inr t1
            \<longrightarrow> transcriptions (snd (process_file w i f s))
                  = transcriptions (save_transcription f t1 s))"
proof -
  have o: "output_file g = output_file f" using assms by (rule output_file_stem)
  have "map fst (transcriptions (save_transcription g t2 (save_transcription f t1 s)))
           = map fst (transcriptions (save_transcription f t1 s))"
    by (simp add: o update_keys)
  moreover have "map_of (transcriptions (save_transcription f t1 s)) (stem f @ ''.txt'') = Some (strip t1)"
    by (simp add: update_conv' output_file_def)
  moreover have "map_of (transcriptions (save_transcription g t2 (save_transcription f t1 s))) (stem f @ ''.txt'')
           = Some (strip t2)"
    by (simp add: update_conv' o) (simp add: output_file_def)
  moreover have "\<forall>n. n \<noteq> stem f @ ''.txt'' \<longrightarrow>
             map_of (transcriptions (save_transcription g t2 (save_transcription f t1 s))) n
               = map_of (transcriptions s) n"
    by (simp add: update_conv' o) (simp add: output_file_def)
  moreover have "save_transcription g t1 (save_transcription f t1 s) = save_transcription f t1 s"
    by (simp add: save_transcription_def write_text_def Let_def o)
  moreover have "map_of (transcriptions s) (output_file f) \<noteq> None
            \<longrightarrow> map fst (transcriptions (save_transcription f t1 s)) = map fst (transcriptions s)"
    by (simp add: update_keys map_of_eq_None_iff)
  moreover have "\<forall>c. map_of (audio s) f = Some c \<and> transcribe w (path_join AUDIO_DIR f) = Inr t1
            \<longrightarrow> transcriptions (snd (process_file w i f s))
                  = transcriptions (save_transcription f t1 s)"
  proof (intro allI impI)
    fix c assume "map_of (audio s) f = Some c \<and> transcribe w (path_join AUDIO_DIR f) = Inr t1"
    then have c: "map_of (audio s) f = Some c" and t: "transcribe w (path_join AUDIO_DIR f) = Inr t1"
      by simp_all
    from process_file_ok [OF c t, of i] obtain r s' where
      "process_file w i f s = (Inr r, s')"
      "transcriptions s' = AList.update (output_file f) (strip t1) (transcriptions s)"
      by blast
    then show "transcriptions (snd (process_file w i f s)) = transcriptions (save_transcription f t1 s)"
      by simp
  qed
  ultimately show ?thesis by blast
qed

theorem save_transcription_overwrites_in_place_witness:
  "stem ''a.mp3'' = stem ''a.wav''
   \<and> map fst (transcriptions (save_transcription ''a.wav'' '' uno '' ex_empty)) = [''a.txt'']
   \<and> map fst (transcriptions (save_transcription ''a.mp3'' '' dos '' (save_transcription ''a.wav'' '' uno '' ex_empty)))
       = [''a.txt'']
   \<and> map_of (transcriptions (save_transcription ''a.mp3'' '' dos '' (save_transcription ''a.wav'' '' uno '' ex_empty)))
         ''a.txt'' = Some ''dos''"
proof -
  have h: "stem ''a.mp3'' = stem ''a.wav''" by code_simp
  have e: "stem ''a.wav'' @ ''.txt'' = ''a.txt''" by code_simp
  have d: "strip '' dos '' = ''dos''" by code_simp
  have l: "map fst (transcriptions (save_transcription ''a.wav'' '' uno '' ex_empty)) = [''a.txt'']"
    by code_simp
  from save_transcription_overwrites_in_place [OF h, of " '' dos ''" "'' uno ''" ex_empty] h e d l
  show ?thesis by simp
qed

subsection \<open>The loop over the batch\<close>

lemma process_files_ok:
  assumes "distinct fs"
      and "\<forall>g\<in>set fs. map_of (audio s) g \<noteq> None"
      and "\<forall>g\<in>set fs. \<exists>t. transcribe w (path_join AUDIO_DIR g) = Inr t"
  shows "\<exists>acc' s'. process_files w i fs acc s = (Inr acc', s')
           \<and> (\<forall>n. map_of (audio s') n = (if n \<in> set fs then None else map_of (audio s) n))
           \<and> map_of (transcriptions s')
               = map_of (transcriptions s) ++ map_of (rev (map (\<lambda>g. (output_file g, saved_text w g)) fs))
           \<and> (\<forall>n. map_of (historical s) n \<noteq> None \<longrightarrow> map_of (historical s') n \<noteq> None)
           \<and> trace s' = trace s @ concat (map calls_for fs)"
  using assms
proof (induction fs arbitrary: i acc s)
  case Nil
  then show ?case by simp
next
  case (Cons f fs)
  obtain tt rs where acc: "acc = (tt, rs)" by (cases acc)
  from Cons.prems obtain c t where c: "map_of (audio s) f = Some c"
    and t: "transcribe w (path_join AUDIO_DIR f) = Inr t"
    by auto
  from process_file_ok [OF c t, of i] obtain r s1 where
    pf: "process_file w i f s = (Inr r, s1)"
    and a1: "audio s1 = AList.delete f (audio s)"
    and t1: "transcriptions s1 = AList.update (output_file f) (strip t) (transcriptions s)"
    and h1: "historical s1 = AList.update (historical_file (localtime w i) f s) c (historical s)"
    and tr1: "trace s1 = trace s @ calls_for f"
    by blast
  have d: "distinct fs" and nf: "f \<notin> set fs" using Cons.prems(1) by simp_all
  have ex1: "\<forall>g\<in>set fs. map_of (audio s1) g \<noteq> None"
    using Cons.prems(2) nf by (auto simp add: a1 delete_conv')
  have ok1: "\<forall>g\<in>set fs. \<exists>t. transcribe w (path_join AUDIO_DIR g) = Inr t"
    using Cons.prems(3) by simp
  from Cons.IH [OF d ex1 ok1, of "i + 1" "(tt + time r, rs @ [r])"] obtain acc' s' where
    pfs: "process_files w (i + 1) fs (tt + time r, rs @ [r]) s1 = (Inr acc', s')"
    and a': "\<forall>n. map_of (audio s') n = (if n \<in> set fs then None else map_of (audio s1) n)"
    and t': "map_of (transcriptions s')
               = map_of (transcriptions s1) ++ map_of (rev (map (\<lambda>g. (output_file g, saved_text w g)) fs))"
    and h': "\<forall>n. map_of (historical s1) n \<noteq> None \<longrightarrow> map_of (historical s') n \<noteq> None"
    and tr': "trace s' = trace s1 @ concat (map calls_for fs)"
    by blast
  have "process_files w i (f # fs) acc s = (Inr acc', s')"
    using pfs by (simp add: acc pf)
  moreover have "\<forall>n. map_of (audio s') n = (if n \<in> set (f # fs) then None else map_of (audio s) n)"
    using a' by (simp add: a1 delete_conv')
  moreover have "map_of (transcriptions s')
               = map_of (transcriptions s) ++ map_of (rev (map (\<lambda>g. (output_file g, saved_text w g)) (f # fs)))"
    by (simp add: t' t1 update_conv' saved_text_def t)
  moreover have "\<forall>n. map_of (historical s) n \<noteq> None \<longrightarrow> map_of (historical s') n \<noteq> None"
    using h' by (simp add: h1 update_conv')
  moreover have "trace s' = trace s @ concat (map calls_for (f # fs))"
    by (simp add: tr' tr1)
  ultimately show ?case by blast
qed

lemma process_files_engine_raises:
  assumes "distinct (pre @ [f])"
      and "\<forall>g\<in>set (pre @ [f]). map_of (audio s) g \<noteq> None"
      and "\<forall>g\<in>set pre. \<exists>t. transcribe w (path_join AUDIO_DIR g) = Inr t"
      and "transcribe w (path_join AUDIO_DIR f) = Inl e"
  shows "\<exists>acc' s1 s'. process_files w i pre acc s = (Inr acc', s1)
           \<and> process_files w i (pre @ f # post) acc s = (Inl e, s')
           \<and> same_dirs s1 s' \<and> trace s' = trace s1 @ calls_for f"
  using assms
proof (induction pre arbitrary: i acc s)
  case Nil
  obtain tt rs where acc: "acc = (tt, rs)" by (cases acc)
  from Nil.prems obtain c where c: "map_of (audio s) f = Some c" by auto
  from process_file_engine_raises [OF c Nil.prems(4), of i] obtain s' where
    "process_file w i f s = (Inl e, s')" "same_dirs s s'" "trace s' = trace s @ calls_for f"
    by blast
  then show ?case by (simp add: acc)
next
  case (Cons g pre)
  obtain tt rs where acc: "acc = (tt, rs)" by (cases acc)
  from Cons.prems obtain c t where c: "map_of (audio s) g = Some c"
    and t: "transcribe w (path_join AUDIO_DIR g) = Inr t"
    by auto
  from process_file_ok [OF c t, of i] obtain r s1 where
    pf: "process_file w i g s = (Inr r, s1)"
    and a1: "audio s1 = AList.delete g (audio s)"
    by blast
  have d: "distinct (pre @ [f])" and ng: "g \<notin> set (pre @ [f])" using Cons.prems(1) by simp_all
  have ex1: "\<forall>x\<in>set (pre @ [f]). map_of (audio s1) x \<noteq> None"
  proof
    fix x assume x: "x \<in> set (pre @ [f])"
    with ng have "x \<noteq> g" by auto
    moreover from x Cons.prems(2) have "map_of (audio s) x \<noteq> None" by auto
    ultimately show "map_of (audio s1) x \<noteq> None" by (simp add: a1 delete_conv')
  qed
  have ok1: "\<forall>x\<in>set pre. \<exists>t. transcribe w (path_join AUDIO_DIR x) = Inr t"
    using Cons.prems(3) by simp
  from Cons.IH [OF d ex1 ok1 Cons.prems(4), of "i + 1" "(tt + time r, rs @ [r])"]
  show ?case by (simp add: acc pf)
qed

subsection \<open>Discovery and the steps before the loop\<close>

lemma find_audio_files_set:
  "set (find_audio_files s) = {f \<in> fst ` set (audio s). is_audio f}"
  by (auto simp add: find_audio_files_def)

lemma find_audio_files_distinct:
  "distinct (map fst (audio s)) \<Longrightarrow> distinct (find_audio_files s)"
  by (simp add: find_audio_files_def)

lemma find_audio_files_sorted: "sorted (find_audio_files s)"
  by (simp add: find_audio_files_def)

lemma find_audio_files_exist:
  "g \<in> set (find_audio_files s) \<Longrightarrow> map_of (audio s) g \<noteq> None"
  by (simp add: find_audio_files_set map_of_eq_None_iff)

lemma same_dirs_refl [simp]: "same_dirs s s"
  by (simp add: same_dirs_def)

lemma same_dirs_emit [simp]: "same_dirs s (emit e s)"
  by (simp add: same_dirs_def)

lemma same_dirs_trans: "same_dirs s s1 \<Longrightarrow> same_dirs s1 s2 \<Longrightarrow> same_dirs s s2"
  by (simp add: same_dirs_def)

lemma list_files_ok:
  assumes "\<forall>g\<in>set fs. map_of (audio s) g \<noteq> None"
  shows "\<exists>s'. list_files w fs s = (Inr (), s') \<and> same_dirs s s'"
  using assms
proof (induction fs arbitrary: s)
  case Nil
  then show ?case by simp
next
  case (Cons f fs)
  from Cons.prems obtain c where c: "map_of (audio s) f = Some c" by auto
  from get_audio_duration_existing [OF c, of w] obtain d where
    d: "get_audio_duration w f s = (Inr d, emit (Spawn (ffprobe_argv (path_join AUDIO_DIR f))) s)"
    by blast
  let ?s1 = "emit (Spawn (ffprobe_argv (path_join AUDIO_DIR f))) s"
  have "\<forall>g\<in>set fs. map_of (audio ?s1) g \<noteq> None" using Cons.prems by simp
  from Cons.IH [OF this] obtain s' where
    "list_files w fs ?s1 = (Inr (), s')" "same_dirs ?s1 s'"
    by blast
  then show ?case
    by (auto simp add: st_size_def c d same_dirs_def)
qed

lemma notify_launched:
  assumes "subprocess_run w [''osascript'', ''-e'', notify_script title message sound] = Inr result"
  shows "notify w title message sound s
           = (Inr (), emit (Spawn [''osascript'', ''-e'', notify_script title message sound]) s)"
  using assms by (simp add: notify_def run_eq)

lemma notify_same_dirs: "same_dirs s (snd (notify w title message sound s))"
  by (simp add: notify_def run_eq split: sum.splits)

text \<open>
  A run that finds files, loads the model and sends the starting notification reaches the
  loop with the directories as they were and with no engine call made yet.
\<close>

lemma main_reaches_loop:
  assumes files: "find_audio_files s0 = files" "files \<noteq> []"
      and load: "load_model w ''medium'' = None"
      and start: "subprocess_run w [''osascript'', ''-e'',
                    notify_script ''Transcriptor'' (starting_message (length files)) True] = Inr result"
  shows "\<exists>s3. same_dirs s0 s3
            \<and> (\<forall>e s4. process_files w 1 files (0, []) s3 = (Inl e, s4) \<longrightarrow> main w s0 = (Some e, s4))
            \<and> (\<forall>acc s4. process_files w 1 files (0, []) s3 = (Inr acc, s4)
                   \<longrightarrow> same_dirs s4 (snd (main w s0)))"
proof -
  have "\<forall>g\<in>set files. map_of (audio s0) g \<noteq> None"
    using files(1) find_audio_files_exist by blast
  from list_files_ok [OF this, of w] obtain s1 where
    l: "list_files w files s0 = (Inr (), s1)" and d1: "same_dirs s0 s1"
    by blast
  let ?s2 = "emit (LoadModel ''medium'') s1"
  let ?s3 = "emit (Spawn [''osascript'', ''-e'',
                    notify_script ''Transcriptor'' (starting_message (length files)) True]) ?s2"
  have n: "notify w ''Transcriptor'' (starting_message (length files)) True ?s2 = (Inr (), ?s3)"
    by (rule notify_launched [OF start])
  have "same_dirs s0 ?s3" using d1 by (simp add: same_dirs_def)
  moreover have "\<forall>e s4. process_files w 1 files (0, []) ?s3 = (Inl e, s4) \<longrightarrow> main w s0 = (Some e, s4)"
    using files by (simp add: main_def l load n)
  moreover have "\<forall>acc s4. process_files w 1 files (0, []) ?s3 = (Inr acc, s4)
                   \<longrightarrow> same_dirs s4 (snd (main w s0))"
  proof (intro allI impI)
    fix acc s4 assume p: "process_files w 1 files (0, []) ?s3 = (Inr acc, s4)"
    obtain tt rs where acc: "acc = (tt, rs)" by (cases acc)
    have p': "process_files w (Suc 0) files (0, []) ?s3 = (Inr (tt, rs), s4)"
      using p acc by simp
    let ?n = "notify w complete_title (complete_message (length rs) (sum_list (map words rs)) tt) True s4"
    have m: "snd (main w s0) =
             (case ?n of (Inl e, s5) \<Rightarrow> s5
              | (Inr u, s5) \<Rightarrow> snd (run w [''open'', OUTPUT_DIR] s5))"
      using files by (simp add: main_def l load n p' Let_def split: prod.splits sum.splits)
    have "same_dirs s4 (snd ?n)" by (rule notify_same_dirs)
    then show "same_dirs s4 (snd (main w s0))"
      unfolding m by (auto simp add: run_eq same_dirs_def split: prod.splits sum.splits)
  qed
  ultimately show ?thesis by blast
qed

subsection \<open>Two inputs with one stem\<close>

lemma output_file_eq_iff: "output_file g = output_file f \<longleftrightarrow> stem g = stem f"
  by (simp add: output_file_def)

lemma map_of_rev_last:
  assumes "\<forall>g\<in>set zs. fst (F g) \<noteq> fst (F f)"
  shows "map_of (rev (map F (ys @ f # zs))) (fst (F f)) = Some (snd (F f))"
proof -
  have "fst (F f) \<notin> fst ` set (rev (map F zs))" using assms by auto
  then have "map_of (rev (map F zs)) (fst (F f)) = None" by (simp add: map_of_eq_None_iff)
  then show ?thesis by (simp add: map_add_def)
qed

text \<open>
  Claim C10. Let the names of the input directory be distinct. Let two files of one batch
  have the same stem, \<open>f1\<close> before \<open>f2\<close> in the sorted order of the batch (two
  distinct names with one stem differ in their extension), and let no file after
  \<open>f2\<close> have that stem. Let the run reach the loop and the engine succeed on every
  file. Both files are written to the same output file \<^verbatim>\<open><stem>.txt\<close>, and when
  the run has processed the batch that one file holds the text of \<open>f2\<close>, the later
  of the two.
\<close>

theorem same_stem_later_file_wins:
  assumes keys: "distinct (map fst (audio s0))"
      and files: "find_audio_files s0 = xs @ f1 # ys @ f2 # zs"
      and stems: "stem f1 = stem f2"
      and last: "\<forall>g\<in>set zs. stem g \<noteq> stem f2"
      and load: "load_model w ''medium'' = None"
      and start: "subprocess_run w [''osascript'', ''-e'',
                    notify_script ''Transcriptor''
                      (starting_message (length (xs @ f1 # ys @ f2 # zs))) True] = Inr result"
      and ok: "\<forall>g\<in>set (xs @ f1 # ys @ f2 # zs). \<exists>t. transcribe w (path_join AUDIO_DIR g) = Inr t"
  shows "f1 < f2 \<and> output_file f1 = output_file f2
       \<and> map_of (transcriptions (snd (main w s0))) (output_file f2) = Some (saved_text w f2)"
proof -
  let ?files = "xs @ f1 # ys @ f2 # zs"
  let ?F = "\<lambda>g. (output_file g, saved_text w g)"
  have dist: "distinct ?files" using find_audio_files_distinct [OF keys] files by simp
  have "sorted ?files" using find_audio_files_sorted [of s0] files by simp
  then have "f1 \<le> f2" by (simp add: sorted_append)
  moreover have "f1 \<noteq> f2" using dist by auto
  ultimately have lt: "f1 < f2" by simp
  have ex: "\<forall>g\<in>set ?files. map_of (audio s0) g \<noteq> None"
    using files find_audio_files_exist by metis
  from main_reaches_loop [OF files _ load start] obtain s3 where
    d3: "same_dirs s0 s3"
    and fin: "\<forall>acc s4. process_files w 1 ?files (0, []) s3 = (Inr acc, s4)
                   \<longrightarrow> same_dirs s4 (snd (main w s0))"
    by auto
  have ex3: "\<forall>g\<in>set ?files. map_of (audio s3) g \<noteq> None"
    using ex d3 by (simp add: same_dirs_def)
  from process_files_ok [OF dist ex3 ok, of 1 "(0, [])"] obtain acc' s4 where
    p: "process_files w 1 ?files (0, []) s3 = (Inr acc', s4)"
    and t4: "map_of (transcriptions s4)
               = map_of (transcriptions s3) ++ map_of (rev (map ?F ?files))"
    by blast
  from fin p have "same_dirs s4 (snd (main w s0))" by blast
  then have tm: "transcriptions (snd (main w s0)) = transcriptions s4" by (simp add: same_dirs_def)
  have "\<forall>g\<in>set zs. fst (?F g) \<noteq> fst (?F f2)" using last by (simp add: output_file_eq_iff)
  from map_of_rev_last [of zs ?F f2 "xs @ f1 # ys", OF this]
  have "map_of (rev (map ?F ?files)) (output_file f2) = Some (saved_text w f2)" by simp
  then have "map_of (transcriptions (snd (main w s0))) (output_file f2) = Some (saved_text w f2)"
    by (simp add: tm t4 map_add_def)
  moreover have "output_file f1 = output_file f2" using stems by (simp add: output_file_eq_iff)
  ultimately show ?thesis using lt by blast
qed

theorem same_stem_later_file_wins_witness:
  "distinct (map fst (audio ex_twins))
   \<and> find_audio_files ex_twins = [] @ ''a.mp3'' # [] @ ''a.wav'' # []
   \<and> stem ''a.mp3'' = stem ''a.wav''
   \<and> output_file ''a.mp3'' = ''a.txt'' \<and> output_file ''a.wav'' = ''a.txt''
   \<and> map_of (transcriptions (snd (main ex_world ex_twins))) ''a.txt'' = Some ''texto de audio/a.wav''
   \<and> map fst (transcriptions (snd (main ex_world ex_twins))) = [''a.txt'']"
proof -
  have k: "distinct (map fst (audio ex_twins))" by code_simp
  have f: "find_audio_files ex_twins = [] @ ''a.mp3'' # [] @ ''a.wav'' # []" by code_simp
  have s: "stem ''a.mp3'' = stem ''a.wav''" by code_simp
  have l: "\<forall>g\<in>set []. stem g \<noteq> stem ''a.wav''" by simp
  have m: "load_model ex_world ''medium'' = None" by (simp add: ex_world_def)
  have n: "subprocess_run ex_world [''osascript'', ''-e'',
             notify_script ''Transcriptor''
               (starting_message (length ([] @ ''a.mp3'' # [] @ ''a.wav'' # []))) True]
           = Inr \<lparr>returncode = 0, stdout = []\<rparr>"
    by (simp add: ex_world_def)
  have o: "\<forall>g\<in>set ([] @ ''a.mp3'' # [] @ ''a.wav'' # []).
             \<exists>t. transcribe ex_world (path_join AUDIO_DIR g) = Inr t"
    by (simp add: ex_world_def)
  have o1: "output_file ''a.mp3'' = ''a.txt''" by code_simp
  have o2: "output_file ''a.wav'' = ''a.txt''" by code_simp
  have t: "saved_text ex_world ''a.wav'' = ''texto de audio/a.wav''" by code_simp
  have c: "map fst (transcriptions (snd (main ex_world ex_twins))) = [''a.txt'']" by code_simp
  from same_stem_later_file_wins [OF k f s l m n o]
  have "map_of (transcriptions (snd (main ex_world ex_twins))) (output_file ''a.wav'')
          = Some (saved_text ex_world ''a.wav'')"
    by blast
  with k f s o1 o2 t c show ?thesis by simp
qed

subsection \<open>Names, stems, suffixes and timestamps\<close>

lemma split_at_last:
  assumes "xs @ c # ys = xs' @ c # ys'" and "c \<notin> set ys" and "c \<notin> set ys'"
  shows "xs = xs' \<and> ys = ys'"
proof -
  have "takeWhile (\<lambda>x. x \<noteq> c) (rev (xs @ c # ys)) = rev ys"
    using assms(2) by (simp add: takeWhile_append2 [where xs = "rev ys"] takeWhile_append)
  moreover have "takeWhile (\<lambda>x. x \<noteq> c) (rev (xs' @ c # ys')) = rev ys'"
    using assms(3) by (simp add: takeWhile_append)
  ultimately have "rev ys = rev ys'" using assms(1) by simp
  then have "ys = ys'" by simp
  with assms(1) show ?thesis by simp
qed

lemma last_dot_split:
  assumes "CHR ''.'' \<in> set s"
  shows "\<exists>p r. s = p @ CHR ''.'' # r \<and> CHR ''.'' \<notin> set r \<and> rfind s (CHR ''.'') = int (length p)"
proof -
  let ?P = "\<lambda>x. x \<noteq> CHR ''.''"
  let ?r = "takeWhile ?P (rev s)"
  let ?d = "dropWhile ?P (rev s)"
  have "?d \<noteq> []" using assms by (simp add: dropWhile_eq_Nil_conv)
  moreover have "\<not> ?P (hd ?d)" using \<open>?d \<noteq> []\<close> by (rule hd_dropWhile)
  ultimately obtain q where q: "?d = CHR ''.'' # q" by (cases ?d) auto
  have "rev s = ?r @ CHR ''.'' # q" using takeWhile_dropWhile_id [of ?P "rev s"] q by simp
  then have "rev (rev s) = rev (?r @ CHR ''.'' # q)" by simp
  then have s: "s = rev q @ CHR ''.'' # rev ?r" by simp
  have nd: "CHR ''.'' \<notin> set (rev ?r)" using set_takeWhileD [of "CHR ''.''" ?P "rev s"] by auto
  have "length s = length q + 1 + length ?r" by (subst s) simp
  then have "rfind s (CHR ''.'') = int (length (rev q))"
    using assms by (simp add: rfind_def)
  with s nd show ?thesis by blast
qed

lemma name_is_stem_suffix: "stem f @ suffix f = f"
  by (simp add: stem_def suffix_def Let_def)

lemma suffix_shape:
  assumes "suffix f \<noteq> []"
  shows "\<exists>r. suffix f = CHR ''.'' # r \<and> CHR ''.'' \<notin> set r"
proof -
  from assms have i: "0 < rfind f (CHR ''.'')" by (auto simp add: suffix_def Let_def split: if_splits)
  then have "CHR ''.'' \<in> set f" by (auto simp add: rfind_def split: if_splits)
  from last_dot_split [OF this] obtain p r where
    f: "f = p @ CHR ''.'' # r" and r: "CHR ''.'' \<notin> set r" and l: "rfind f (CHR ''.'') = int (length p)"
    by blast
  from assms have "suffix f = drop (nat (rfind f (CHR ''.''))) f"
    by (auto simp add: suffix_def Let_def split: if_splits)
  also have "\<dots> = drop (length p) (p @ CHR ''.'' # r)" using l f by simp
  also have "\<dots> = CHR ''.'' # r" by simp
  finally show ?thesis using r by blast
qed

lemma is_audio_suffix: "is_audio f \<Longrightarrow> suffix f \<noteq> []"
  by (auto simp add: is_audio_def lower_def AUDIO_EXTENSIONS_def)

lemma is_digit_not_underscore: "is_digit c \<Longrightarrow> c \<noteq> CHR ''_''"
  by (auto simp add: is_digit_def)

lemma zfill_decimal_digits: "list_all is_digit (zfill k (decimal n))"
  by (rule zfill_digits [OF decimal_digits])

lemma strftime_stamp_shape:
  "\<exists>d1 d2. strftime_stamp t = d1 @ CHR ''_'' # d2 \<and> CHR ''_'' \<notin> set d1 \<and> CHR ''_'' \<notin> set d2"
proof -
  let ?d1 = "zfill 4 (decimal (tm_year t)) @ zfill 2 (decimal (tm_mon t)) @ zfill 2 (decimal (tm_mday t))"
  let ?d2 = "zfill 2 (decimal (tm_hour t)) @ zfill 2 (decimal (tm_min t)) @ zfill 2 (decimal (tm_sec t))"
  have "list_all is_digit ?d1" "list_all is_digit ?d2" by (simp_all add: zfill_decimal_digits)
  then have "CHR ''_'' \<notin> set ?d1" "CHR ''_'' \<notin> set ?d2"
    using is_digit_not_underscore by (auto simp add: list_all_iff)
  moreover have "strftime_stamp t = ?d1 @ CHR ''_'' # ?d2" by (simp add: strftime_stamp_def)
  ultimately show ?thesis by blast
qed

lemma timestamped_inj:
  assumes "timestamped f (strftime_stamp t) = timestamped g (strftime_stamp u)"
      and "suffix f \<noteq> []" and "suffix g \<noteq> []"
  shows "f = g"
proof -
  from suffix_shape [OF assms(2)] obtain r where r: "suffix f = CHR ''.'' # r" "CHR ''.'' \<notin> set r" by blast
  from suffix_shape [OF assms(3)] obtain r' where r': "suffix g = CHR ''.'' # r'" "CHR ''.'' \<notin> set r'" by blast
  from strftime_stamp_shape [of t] obtain d1 d2 where
    t: "strftime_stamp t = d1 @ CHR ''_'' # d2" "CHR ''_'' \<notin> set d1" "CHR ''_'' \<notin> set d2" by blast
  from strftime_stamp_shape [of u] obtain e1 e2 where
    u: "strftime_stamp u = e1 @ CHR ''_'' # e2" "CHR ''_'' \<notin> set e1" "CHR ''_'' \<notin> set e2" by blast
  from assms(1) have "(stem f @ CHR ''_'' # d1 @ CHR ''_'' # d2) @ CHR ''.'' # r
                    = (stem g @ CHR ''_'' # e1 @ CHR ''_'' # e2) @ CHR ''.'' # r'"
    by (simp add: timestamped_def r(1) r'(1) t(1) u(1))
  from split_at_last [OF this r(2) r'(2)]
  have a: "stem f @ CHR ''_'' # d1 @ CHR ''_'' # d2 = stem g @ CHR ''_'' # e1 @ CHR ''_'' # e2"
    and rr: "r = r'" by simp_all
  from a have "(stem f @ CHR ''_'' # d1) @ CHR ''_'' # d2 = (stem g @ CHR ''_'' # e1) @ CHR ''_'' # e2"
    by simp
  from split_at_last [OF this t(3) u(3)]
  have "stem f @ CHR ''_'' # d1 = stem g @ CHR ''_'' # e1" by simp
  from split_at_last [OF this t(2) u(2)] have "stem f = stem g" by simp
  moreover have "suffix f = suffix g" using r r' rr by simp
  ultimately have "stem f @ suffix f = stem g @ suffix g" by simp
  then show ?thesis by (simp only: name_is_stem_suffix)
qed

lemma append_less_append: "xs @ u < xs @ v \<longleftrightarrow> u < (v :: char list)"
  by (induction xs) simp_all

lemma name_less_timestamped:
  assumes "suffix g \<noteq> []"
  shows "g < timestamped g ts"
proof -
  from suffix_shape [OF assms] obtain r where r: "suffix g = CHR ''.'' # r" by blast
  have "CHR ''.'' < CHR ''_''" by (simp add: less_char_def)
  then have "stem g @ CHR ''.'' # r < stem g @ CHR ''_'' # (ts @ CHR ''.'' # r)"
    by (simp add: append_less_append)
  moreover have "stem g @ CHR ''.'' # r = g" using name_is_stem_suffix [of g] r by simp
  ultimately show ?thesis by (simp add: timestamped_def r)
qed

subsection \<open>What a run archives stays archived\<close>

lemma historical_file_cases:
  "historical_file now f s = f \<and> map_of (historical s) f = None
   \<or> historical_file now f s = timestamped f (strftime_stamp now)"
  by (simp add: historical_file_def)

lemma process_files_keeps_archived:
  assumes "distinct fs"
      and "\<forall>g\<in>set fs. map_of (audio s) g \<noteq> None"
      and "\<forall>g\<in>set fs. \<exists>t. transcribe w (path_join AUDIO_DIR g) = Inr t"
      and "map_of (historical s) n = Some c"
      and "\<forall>g\<in>set fs. \<forall>t. n \<noteq> timestamped g (strftime_stamp t)"
      and "process_files w i fs acc s = (Inr acc', s')"
  shows "map_of (historical s') n = Some c"
  using assms
proof (induction fs arbitrary: i acc s)
  case Nil
  then show ?case by simp
next
  case (Cons f fs)
  obtain tt rs where acc: "acc = (tt, rs)" by (cases acc)
  from Cons.prems obtain cf t where cf: "map_of (audio s) f = Some cf"
    and t: "transcribe w (path_join AUDIO_DIR f) = Inr t"
    by auto
  from process_file_ok [OF cf t, of i] obtain r s1 where
    pf: "process_file w i f s = (Inr r, s1)"
    and a1: "audio s1 = AList.delete f (audio s)"
    and h1: "historical s1 = AList.update (historical_file (localtime w i) f s) cf (historical s)"
    by blast
  have d: "distinct fs" and nf: "f \<notin> set fs" using Cons.prems(1) by simp_all
  have ex1: "\<forall>g\<in>set fs. map_of (audio s1) g \<noteq> None"
    using Cons.prems(2) nf by (auto simp add: a1 delete_conv')
  have ok1: "\<forall>g\<in>set fs. \<exists>t. transcribe w (path_join AUDIO_DIR g) = Inr t"
    using Cons.prems(3) by simp
  have "historical_file (localtime w i) f s \<noteq> n"
    using historical_file_cases [of "localtime w i" f s] Cons.prems(4,5) by auto
  then have n1: "map_of (historical s1) n = Some c"
    using Cons.prems(4) by (simp add: h1 update_conv')
  have ts1: "\<forall>g\<in>set fs. \<forall>t. n \<noteq> timestamped g (strftime_stamp t)"
    using Cons.prems(5) by simp
  have p1: "process_files w (i + 1) fs (tt + time r, rs @ [r]) s1 = (Inr acc', s')"
    using Cons.prems(6) by (simp add: acc pf)
  from Cons.IH [OF d ex1 ok1 n1 ts1 p1] show ?case .
qed

lemma process_files_archives_all:
  assumes "sorted fs" and "distinct fs"
      and "\<forall>g\<in>set fs. map_of (audio s) g \<noteq> None"
      and "\<forall>g\<in>set fs. \<exists>t. transcribe w (path_join AUDIO_DIR g) = Inr t"
      and "\<forall>g\<in>set fs. suffix g \<noteq> []"
      and "process_files w i fs acc s = (Inr acc', s')"
  shows "\<forall>g\<in>set fs. \<exists>dst. (dst = g \<or> (\<exists>u. dst = timestamped g (strftime_stamp u)))
                          \<and> map_of (historical s') dst = map_of (audio s) g"
  using assms
proof (induction fs arbitrary: i acc s)
  case Nil
  then show ?case by simp
next
  case (Cons f fs)
  obtain tt rs where acc: "acc = (tt, rs)" by (cases acc)
  from Cons.prems obtain cf t where cf: "map_of (audio s) f = Some cf"
    and t: "transcribe w (path_join AUDIO_DIR f) = Inr t"
    by auto
  from process_file_ok [OF cf t, of i] obtain r s1 where
    pf: "process_file w i f s = (Inr r, s1)"
    and a1: "audio s1 = AList.delete f (audio s)"
    and h1: "historical s1 = AList.update (historical_file (localtime w i) f s) cf (historical s)"
    by blast
  let ?dst = "historical_file (localtime w i) f s"
  have so: "sorted fs" and le: "\<forall>g\<in>set fs. f \<le> g" using Cons.prems(1) by simp_all
  have d: "distinct fs" and nf: "f \<notin> set fs" using Cons.prems(2) by simp_all
  have ex1: "\<forall>g\<in>set fs. map_of (audio s1) g \<noteq> None"
    using Cons.prems(3) nf by (auto simp add: a1 delete_conv')
  have ok1: "\<forall>g\<in>set fs. \<exists>t. transcribe w (path_join AUDIO_DIR g) = Inr t"
    using Cons.prems(4) by simp
  have sf: "suffix f \<noteq> []" and su1: "\<forall>g\<in>set fs. suffix g \<noteq> []"
    using Cons.prems(5) by simp_all
  have p1: "process_files w (i + 1) fs (tt + time r, rs @ [r]) s1 = (Inr acc', s')"
    using Cons.prems(6) by (simp add: acc pf)
  have free: "\<forall>g\<in>set fs. \<forall>u. ?dst \<noteq> timestamped g (strftime_stamp u)"
  proof (intro ballI allI)
    fix g u assume g: "g \<in> set fs"
    with nf have ne: "f \<noteq> g" by auto
    from g le have "f \<le> g" by simp
    with ne have "f < g" by simp
    also have "g < timestamped g (strftime_stamp u)"
      using su1 g by (simp add: name_less_timestamped)
    finally have "f \<noteq> timestamped g (strftime_stamp u)" by simp
    moreover have "timestamped f (strftime_stamp (localtime w i)) \<noteq> timestamped g (strftime_stamp u)"
      using timestamped_inj [of f "localtime w i" g u] sf su1 g ne by auto
    ultimately show "?dst \<noteq> timestamped g (strftime_stamp u)"
      using historical_file_cases [of "localtime w i" f s] by auto
  qed
  have "map_of (historical s1) ?dst = Some cf" by (simp add: h1 update_conv')
  from process_files_keeps_archived [OF d ex1 ok1 this free p1]
  have "map_of (historical s') ?dst = map_of (audio s) f" by (simp add: cf)
  moreover have "?dst = f \<or> (\<exists>u. ?dst = timestamped f (strftime_stamp u))"
    using historical_file_cases [of "localtime w i" f s] by auto
  moreover have "\<forall>g\<in>set fs. \<exists>dst. (dst = g \<or> (\<exists>u. dst = timestamped g (strftime_stamp u)))
                          \<and> map_of (historical s') dst = map_of (audio s) g"
  proof
    fix g assume g: "g \<in> set fs"
    from Cons.IH [OF so d ex1 ok1 su1 p1] g
    obtain dst where "dst = g \<or> (\<exists>u. dst = timestamped g (strftime_stamp u))"
      "map_of (historical s') dst = map_of (audio s1) g" by blast
    moreover have "map_of (audio s1) g = map_of (audio s) g"
      using g nf by (auto simp add: a1 delete_conv')
    ultimately show "\<exists>dst. (dst = g \<or> (\<exists>u. dst = timestamped g (strftime_stamp u)))
                          \<and> map_of (historical s') dst = map_of (audio s) g" by auto
  qed
  ultimately show ?case by auto
qed

subsection \<open>An engine failure in the middle of a batch\<close>

text \<open>
  Claim C1. Let the names of the input directory be distinct, as the names of a directory
  are. Let the run have discovered the batch \<open>pre @ f # post\<close> (in sorted order)
  and have reached the loop (the model loads, the starting notification is sent), let the
  engine succeed on every file of \<open>pre\<close> and raise \<open>e\<close> on \<open>f\<close>. Then
  \<open>main\<close> ends with the exception \<open>e\<close>: nothing catches it. When it ends,
  \<^item> \<open>f\<close> and every file of \<open>post\<close> are in the input directory as they were;
  \<^item> every file of \<open>pre\<close> has left the input directory, its output file exists, and
    the archive holds its content under its own name or under its timestamped name;
  \<^item> the output directory is the initial one overwritten with the texts of the files of
    \<open>pre\<close>, in order, and with nothing else: no output was written for \<open>f\<close> or
    for a file of \<open>post\<close>.
\<close>

theorem engine_failure_stops_batch:
  assumes keys: "distinct (map fst (audio s0))"
      and files: "find_audio_files s0 = pre @ f # post"
      and load: "load_model w ''medium'' = None"
      and start: "subprocess_run w [''osascript'', ''-e'',
                    notify_script ''Transcriptor''
                      (starting_message (length (pre @ f # post))) True] = Inr result"
      and ok: "\<forall>g\<in>set pre. \<exists>t. transcribe w (path_join AUDIO_DIR g) = Inr t"
      and bad: "transcribe w (path_join AUDIO_DIR f) = Inl e"
  shows "fst (main w s0) = Some e
       \<and> (\<forall>g\<in>set (f # post). map_of (audio s0) g \<noteq> None
              \<and> map_of (audio (snd (main w s0))) g = map_of (audio s0) g)
       \<and> (\<forall>g\<in>set pre. map_of (audio (snd (main w s0))) g = None
              \<and> map_of (transcriptions (snd (main w s0))) (output_file g) \<noteq> None
              \<and> (\<exists>dst. (dst = g \<or> (\<exists>u. dst = timestamped g (strftime_stamp u)))
                      \<and> map_of (historical (snd (main w s0))) dst = map_of (audio s0) g))
       \<and> map_of (transcriptions (snd (main w s0)))
           = map_of (transcriptions s0) ++ map_of (rev (map (\<lambda>g. (output_file g, saved_text w g)) pre))
       \<and> (\<forall>n. n \<notin> output_file ` set pre
              \<longrightarrow> map_of (transcriptions (snd (main w s0))) n = map_of (transcriptions s0) n)"
proof -
  let ?files = "pre @ f # post"
  let ?F = "\<lambda>g. (output_file g, saved_text w g)"
  let ?s = "snd (main w s0)"
  have dist: "distinct ?files" using find_audio_files_distinct [OF keys] files by simp
  have sorted: "sorted ?files" using find_audio_files_sorted [of s0] files by simp
  have ex: "\<forall>g\<in>set ?files. map_of (audio s0) g \<noteq> None"
    using files find_audio_files_exist by metis
  have aud: "\<forall>g\<in>set ?files. is_audio g"
    using files find_audio_files_set [of s0] by auto
  from main_reaches_loop [OF files _ load start] obtain s3 where
    d3: "same_dirs s0 s3"
    and fail: "\<forall>e s4. process_files w 1 ?files (0, []) s3 = (Inl e, s4) \<longrightarrow> main w s0 = (Some e, s4)"
    by auto
  have ex3: "\<forall>g\<in>set ?files. map_of (audio s3) g \<noteq> None"
    using ex d3 by (simp add: same_dirs_def)
  have dpre: "distinct (pre @ [f])" "distinct pre" using dist by simp_all
  have expre: "\<forall>g\<in>set (pre @ [f]). map_of (audio s3) g \<noteq> None"
    "\<forall>g\<in>set pre. map_of (audio s3) g \<noteq> None"
    using ex3 by simp_all
  from process_files_engine_raises [OF dpre(1) expre(1) ok bad, of 1 "(0, [])" post]
  obtain acc' s1 s' where
    p1: "process_files w 1 pre (0, []) s3 = (Inr acc', s1)"
    and p: "process_files w 1 ?files (0, []) s3 = (Inl e, s')"
    and d1: "same_dirs s1 s'"
    by blast
  from fail p have m: "main w s0 = (Some e, s')" by blast
  from process_files_ok [OF dpre(2) expre(2) ok, of 1 "(0, [])"] p1
  have a1: "\<forall>n. map_of (audio s1) n = (if n \<in> set pre then None else map_of (audio s3) n)"
    and t1: "map_of (transcriptions s1) = map_of (transcriptions s3) ++ map_of (rev (map ?F pre))"
    by auto
  have a': "\<forall>n. map_of (audio s') n = (if n \<in> set pre then None else map_of (audio s0) n)"
    using a1 d1 d3 by (simp add: same_dirs_def)
  have t': "map_of (transcriptions s') = map_of (transcriptions s0) ++ map_of (rev (map ?F pre))"
    using t1 d1 d3 by (simp add: same_dirs_def)
  have spre: "sorted pre" using sorted by (simp add: sorted_append)
  have supre: "\<forall>g\<in>set pre. suffix g \<noteq> []" using aud is_audio_suffix by simp
  from process_files_archives_all [OF spre dpre(2) expre(2) ok supre p1]
  have h': "\<forall>g\<in>set pre. \<exists>dst. (dst = g \<or> (\<exists>u. dst = timestamped g (strftime_stamp u)))
                          \<and> map_of (historical s') dst = map_of (audio s0) g"
    using d1 d3 by (simp add: same_dirs_def)
  have c1: "fst (main w s0) = Some e" by (simp add: m)
  have c2: "\<forall>g\<in>set (f # post). map_of (audio s0) g \<noteq> None
              \<and> map_of (audio ?s) g = map_of (audio s0) g"
  proof
    fix g assume g: "g \<in> set (f # post)"
    with dist have "g \<notin> set pre" by auto
    moreover from g ex have "map_of (audio s0) g \<noteq> None" by auto
    ultimately show "map_of (audio s0) g \<noteq> None \<and> map_of (audio ?s) g = map_of (audio s0) g"
      using a' by (simp add: m)
  qed
  have w: "\<forall>g\<in>set pre. map_of (transcriptions s') (output_file g) \<noteq> None"
  proof
    fix g assume "g \<in> set pre"
    then have "output_file g \<in> fst ` set (rev (map ?F pre))" by force
    then have "map_of (rev (map ?F pre)) (output_file g) \<noteq> None"
      by (simp only: map_of_eq_None_iff not_not)
    then show "map_of (transcriptions s') (output_file g) \<noteq> None"
      by (auto simp add: t' map_add_def split: option.splits)
  qed
  have c3: "\<forall>g\<in>set pre. map_of (audio ?s) g = None
              \<and> map_of (transcriptions ?s) (output_file g) \<noteq> None
              \<and> (\<exists>dst. (dst = g \<or> (\<exists>u. dst = timestamped g (strftime_stamp u)))
                      \<and> map_of (historical ?s) dst = map_of (audio s0) g)"
    using a' w h' by (simp add: m)
  have c4: "map_of (transcriptions ?s) = map_of (transcriptions s0) ++ map_of (rev (map ?F pre))"
    using t' by (simp add: m)
  have c5: "\<forall>n. n \<notin> output_file ` set pre
              \<longrightarrow> map_of (transcriptions ?s) n = map_of (transcriptions s0) n"
  proof (intro allI impI)
    fix n assume "n \<notin> output_file ` set pre"
    then have "n \<notin> fst ` set (rev (map ?F pre))" by force
    then have "map_of (rev (map ?F pre)) n = None" by (simp add: map_of_eq_None_iff)
    then show "map_of (transcriptions ?s) n = map_of (transcriptions s0) n"
      by (simp add: c4 map_add_def)
  qed
  from c1 c2 c3 c4 c5 show ?thesis by blast
qed

theorem engine_failure_stops_batch_witness:
  "distinct (map fst (audio ex_three))
   \<and> find_audio_files ex_three = [''a.wav''] @ ''b.mp3'' # [''c.wav'']
   \<and> transcribe ex_world_bad_b (path_join AUDIO_DIR ''b.mp3'') = Inl (RuntimeError ''corrupt'')
   \<and> fst (main ex_world_bad_b ex_three) = Some (RuntimeError ''corrupt'')
   \<and> audio (snd (main ex_world_bad_b ex_three)) = [(''c.wav'', ''cc''), (''b.mp3'', ''bb'')]
   \<and> transcriptions (snd (main ex_world_bad_b ex_three)) = [(''a.txt'', ''texto de audio/a.wav'')]
   \<and> historical (snd (main ex_world_bad_b ex_three))
       = [(''a.wav'', ''old''), (''a_20260102_030405.wav'', ''aa'')]"
proof -
  have k: "distinct (map fst (audio ex_three))" by code_simp
  have f: "find_audio_files ex_three = [''a.wav''] @ ''b.mp3'' # [''c.wav'']" by code_simp
  have m: "load_model ex_world_bad_b ''medium'' = None"
    by (simp add: ex_world_bad_b_def ex_world_def)
  have n: "subprocess_run ex_world_bad_b [''osascript'', ''-e'',
             notify_script ''Transcriptor''
               (starting_message (length ([''a.wav''] @ ''b.mp3'' # [''c.wav'']))) True]
           = Inr \<lparr>returncode = 0, stdout = []\<rparr>"
    by (simp add: ex_world_bad_b_def ex_world_def)
  have o: "\<forall>g\<in>set [''a.wav'']. \<exists>t. transcribe ex_world_bad_b (path_join AUDIO_DIR g) = Inr t"
    by (simp add: ex_world_bad_b_def ex_world_def path_join_def AUDIO_DIR_def)
  have b: "transcribe ex_world_bad_b (path_join AUDIO_DIR ''b.mp3'') = Inl (RuntimeError ''corrupt'')"
    by (simp add: ex_world_bad_b_def ex_world_def path_join_def AUDIO_DIR_def)
  have a: "audio (snd (main ex_world_bad_b ex_three)) = [(''c.wav'', ''cc''), (''b.mp3'', ''bb'')]"
    by code_simp
  have t: "transcriptions (snd (main ex_world_bad_b ex_three)) = [(''a.txt'', ''texto de audio/a.wav'')]"
    by code_simp
  have h: "historical (snd (main ex_world_bad_b ex_three))
       = [(''a.wav'', ''old''), (''a_20260102_030405.wav'', ''aa'')]"
    by code_simp
  from engine_failure_stops_batch [OF k f m n o b]
  have "fst (main ex_world_bad_b ex_three) = Some (RuntimeError ''corrupt'')" by blast
  with k f b a t h show ?thesis by blast
qed

end
